theory Spec2Isabelle
  imports Complex_Main "HOL-Library.Log_Nat" "HOL-Library.Multiset"
begin

section \<open>Data model\<close>

text \<open>
  A country item of \<open>CountryTable\<close>. The table's key attribute \<open>countryID\<close> is a
  string on every stored item; every other attribute may be absent (\<open>None\<close> is the
  JavaScript \<open>undefined\<close> that reading a missing property gives). Attributes carry the
  types of the data model: strings for the names, numbers for population and area.
  A number read from the table is a finite double, kept here as the rational it denotes.
\<close>

record fields =
  name :: "string option"
  capital :: "string option"
  region :: "string option"
  currency :: "string option"
  population :: "rat option"
  area :: "rat option"
  subregion :: "string option"

record country = fields +
  countryID :: string

text \<open>An element of the array posted to \<open>addCountry\<close>: the caller may send an identifier.\<close>

record country_req = fields +
  suppliedID :: "string option"

text \<open>
  The two DynamoDB tables. \<open>CountryTable\<close> has the hash key \<open>countryID\<close>;
  \<open>NeighborsTable\<close> has the hash key \<open>countryID\<close> and the range key \<open>neighborId\<close>, and its
  items hold nothing but their key. At most one item exists per key. The list order of
  \<open>CountryTable\<close> is the order in which a scan returns the items. The tables are kept in
  memory; of the storage service's own failures the model has the rejection of a batch
  write (see \<open>batchWrite\<close>), and it leaves out the network, throttling and a second
  request running at the same time. A table is taken to fit the one page, of 1 MB, that
  a scan or a query returns to the one call the handlers make.
\<close>

record store =
  CountryTable :: "country list"
  NeighborsTable :: "(string \<times> string) list"

text \<open>What a handler can throw, and what it answers.\<close>

datatype failure =
    HttpError nat string
  | BodyMissing
  | BodySyntaxError
  | BodyNotArray
  | ValidationFailed
  | BatchRejected
  | RegExpSyntaxError

record neighbor_view =
  view_id :: string
  view_name :: "string option"
  view_currency :: "string option"
  view_capital :: "string option"
  view_region :: "string option"

datatype jsnum = NaN | PosInf | NegInf | NegZero | Fin rat

record listing =
  list_items :: "country list"
  has_next :: bool
  has_prev :: bool
  page :: jsnum
  pages :: jsnum
  per_page :: jsnum
  total :: nat

datatype body =
    Created "country list"
  | CountryList string listing
  | ErrorData string
  | ErrorMessage string failure
  | NeighborsAdded string "string list" "string list"
  | NeighborsFailed string "string list" "string list"
  | NeighbourCountries string "neighbor_view list"

record response =
  statusCode :: "nat option"
  payload :: body

section \<open>Table operations\<close>

definition get_item :: "country list \<Rightarrow> string \<Rightarrow> country option" where
  "get_item tbl k = find (\<lambda>c. countryID c = k) tbl"

text \<open>
  A put on an existing key replaces the item where it is. A put of a new key adds the
  item where the table's own order of keys has it: the list order stands for the order of
  a scan, which the service fixes, so the position is the parameter \<open>place\<close> (a position
  beyond the end is the end).
\<close>

definition put_item ::
  "(country \<Rightarrow> country list \<Rightarrow> nat) \<Rightarrow> country \<Rightarrow> country list \<Rightarrow> country list" where
  "put_item place x tbl =
     (if countryID x \<in> countryID ` set tbl
      then map (\<lambda>y. if countryID y = countryID x then x else y) tbl
      else take (place x tbl) tbl @ x # drop (place x tbl) tbl)"

text \<open>\<open>new HttpError(404, {error: "not found"})\<close>: the message is the JSON text of the body.\<close>

definition not_found_message :: string where
  "not_found_message =
     ''{'' @ [CHR 0x22] @ ''error'' @ [CHR 0x22] @ '':'' @ [CHR 0x22] @ ''not found'' @ [CHR 0x22] @ ''}''"

definition fetchCountryById :: "store \<Rightarrow> string \<Rightarrow> failure + country" where
  "fetchCountryById s k =
     (case get_item (CountryTable s) k of
        None \<Rightarrow> Inl (HttpError 404 not_found_message)
      | Some item \<Rightarrow> Inr item)"

definition fetchAllCountryIds :: "store \<Rightarrow> string list" where
  "fetchAllCountryIds s = map countryID (CountryTable s)"

text \<open>\<open>fetchNeighbor\<close> returns the item or \<open>undefined\<close>; the caller only tests it for truth.\<close>

definition fetchNeighbor :: "(string \<times> string) list \<Rightarrow> string \<Rightarrow> string \<Rightarrow> bool" where
  "fetchNeighbor tbl cid neighborId = ((cid, neighborId) \<in> set tbl)"

text \<open>A put on an existing key replaces the item by an identical one.\<close>

definition addNeighbor :: "(string \<times> string) list \<Rightarrow> string \<Rightarrow> string \<Rightarrow> (string \<times> string) list" where
  "addNeighbor tbl cid neighborId =
     (if (cid, neighborId) \<in> set tbl then tbl else tbl @ [(cid, neighborId)])"

text \<open>\<open>error.statusCode\<close> in a catch block: only an \<open>HttpError\<close> has one.\<close>

fun error_statusCode :: "failure \<Rightarrow> nat option" where
  "error_statusCode (HttpError code msg) = Some code"
| "error_statusCode e = None"

section \<open>addNeighbors\<close>

definition invalid_neighbor_error :: "string \<Rightarrow> string" where
  "invalid_neighbor_error neighborId = ''Invalid neighbor country ID: '' @ neighborId"

definition neighbor_exists_error :: "string \<Rightarrow> string" where
  "neighbor_exists_error neighborId =
     ''Neighbor with ID '' @ neighborId @ '' already exists for this country''"

text \<open>
  The \<open>for ... of\<close> loop over \<open>neighborData\<close>. The state is the neighbours table together
  with the two accumulators \<open>errors\<close> and \<open>successfulAdditions\<close>.
\<close>

fun neighbors_loop ::
  "string \<Rightarrow> string list \<Rightarrow> string list \<Rightarrow>
   (string \<times> string) list \<times> string list \<times> string list \<Rightarrow>
   (string \<times> string) list \<times> string list \<times> string list" where
  "neighbors_loop cid existingCountryIds [] st = st"
| "neighbors_loop cid existingCountryIds (neighborId # rest) (tbl, errors, successfulAdditions) =
     (if neighborId \<notin> set existingCountryIds then
        neighbors_loop cid existingCountryIds rest
          (tbl, errors @ [invalid_neighbor_error neighborId], successfulAdditions)
      else if fetchNeighbor tbl cid neighborId then
        neighbors_loop cid existingCountryIds rest
          (tbl, errors @ [neighbor_exists_error neighborId], successfulAdditions)
      else
        neighbors_loop cid existingCountryIds rest
          (addNeighbor tbl cid neighborId, errors, successfulAdditions @ [neighborId]))"

text \<open>
  The handler, on a request whose body parsed to \<open>{neighbors: [{neighborId}, ...]}\<close> as the
  source's type annotation has it. \<open>fetchCountryById\<close> throws for an absent country, so
  the handler's own \<open>if (!country)\<close> branch is never taken and the catch block answers.
\<close>

definition addNeighbors :: "store \<Rightarrow> string \<Rightarrow> string list \<Rightarrow> store \<times> response" where
  "addNeighbors s cid neighborData =
     (case fetchCountryById s cid of
        Inl e \<Rightarrow>
          (s, \<lparr>statusCode = error_statusCode e,
               payload = ErrorMessage ''Internal Server Error'' e\<rparr>)
      | Inr item \<Rightarrow>
          (case neighbors_loop cid (fetchAllCountryIds s) neighborData (NeighborsTable s, [], []) of
             (tbl, errors, successfulAdditions) \<Rightarrow>
               (if length successfulAdditions = 0 then
                  (s\<lparr>NeighborsTable := tbl\<rparr>,
                   \<lparr>statusCode = Some 400,
                    payload = NeighborsFailed ''Failed to add neighbors'' [] errors\<rparr>)
                else
                  (s\<lparr>NeighborsTable := tbl\<rparr>,
                   \<lparr>statusCode = Some 200,
                    payload = NeighborsAdded ''Neighbors added successfully''
                      successfulAdditions errors\<rparr>))))"

text \<open>The two lists a response of \<open>addNeighbors\<close> carries.\<close>

fun added_of :: "body \<Rightarrow> string list" where
  "added_of (NeighborsAdded m a e) = a"
| "added_of (NeighborsFailed m a e) = a"
| "added_of b = []"

fun errors_of :: "body \<Rightarrow> string list" where
  "errors_of (NeighborsAdded m a e) = e"
| "errors_of (NeighborsFailed m a e) = e"
| "errors_of b = []"

text \<open>
  Which elements of a batch the loop rejects, and with which text, for stating the
  outcome of a whole batch. The element at position \<open>i\<close> is rejected when its identifier
  is not a country's, when its relation is in the table before the batch, or when the same
  identifier stands earlier in the batch: there it was rejected for the first reason, or
  its relation was in the table before or has been put by then.
\<close>

definition is_rejected ::
  "string list \<Rightarrow> (string \<times> string) list \<Rightarrow> string \<Rightarrow> string list \<Rightarrow> nat \<Rightarrow> bool" where
  "is_rejected ids tbl cid ns i =
     (ns ! i \<notin> set ids \<or> (cid, ns ! i) \<in> set tbl \<or> ns ! i \<in> set (take i ns))"

definition rejection_text :: "string list \<Rightarrow> string \<Rightarrow> string" where
  "rejection_text ids n =
     (if n \<in> set ids then ''Neighbor with ID '' @ n @ '' already exists for this country''
      else ''Invalid neighbor country ID: '' @ n)"

section \<open>JavaScript numbers\<close>

text \<open>
  The numbers of the listing handler are doubles: \<open>NaN\<close>, the two infinities, negative
  zero, and the finite values, each kept as the rational it is, where \<open>Fin 0\<close> is positive
  zero. The result of an operation is the exact result rounded to the nearest double, to
  the even one of two nearest, and to an infinity from \<open>2 ^ 1024\<close> on.
\<close>

fun js_neg :: "jsnum \<Rightarrow> jsnum" where
  "js_neg NaN = NaN"
| "js_neg PosInf = NegInf"
| "js_neg NegInf = PosInf"
| "js_neg NegZero = Fin 0"
| "js_neg (Fin q) = (if q = 0 then NegZero else Fin (- q))"

text \<open>The exponent \<open>e\<close> of a positive rational: \<open>2 ^ e \<le> q < 2 ^ (e + 1)\<close>.\<close>

definition ilog2 :: "rat \<Rightarrow> int" where
  "ilog2 q =
     (case quotient_of q of
        (a, b) \<Rightarrow> if 2 powi (bitlen a - bitlen b) \<le> q then bitlen a - bitlen b
                  else bitlen a - bitlen b - 1)"

definition round_half_even :: "rat \<Rightarrow> int" where
  "round_half_even m =
     (if m - of_int \<lfloor>m\<rfloor> < 1 / 2 then \<lfloor>m\<rfloor>
      else if 1 / 2 < m - of_int \<lfloor>m\<rfloor> then \<lfloor>m\<rfloor> + 1
      else if even \<lfloor>m\<rfloor> then \<lfloor>m\<rfloor>
      else \<lfloor>m\<rfloor> + 1)"

text \<open>
  The distance between neighbouring doubles around \<open>q\<close>: 52 binary places below the
  leading one, and \<open>2 ^ - 1074\<close> throughout the subnormal range.
\<close>

definition least_ulp :: rat where
  "least_ulp = 2 powi (- 1074)"

definition overflow :: rat where
  "overflow = 2 powi 1024"

definition ulp :: "rat \<Rightarrow> rat" where
  "ulp q = (if - 1022 \<le> ilog2 q then 2 powi (ilog2 q - 52) else least_ulp)"

definition nearest :: "rat \<Rightarrow> rat" where
  "nearest q = of_int (round_half_even (q / ulp q)) * ulp q"

text \<open>
  The double nearest to a positive rational. An integer up to \<open>2 ^ 53\<close> is a double and
  is its own rounding.
\<close>

definition to_double_pos :: "rat \<Rightarrow> jsnum" where
  "to_double_pos q =
     (if of_int \<lfloor>q\<rfloor> = q \<and> q \<le> 2 ^ 53 then Fin q
      else if overflow \<le> nearest q then PosInf
      else Fin (nearest q))"

definition to_double :: "rat \<Rightarrow> jsnum" where
  "to_double q =
     (if q = 0 then Fin 0
      else if q < 0 then js_neg (to_double_pos (- q))
      else to_double_pos q)"

fun is_neg :: "jsnum \<Rightarrow> bool" where
  "is_neg NegInf = True"
| "is_neg NegZero = True"
| "is_neg (Fin q) = (q < 0)"
| "is_neg x = False"

fun is_inf :: "jsnum \<Rightarrow> bool" where
  "is_inf PosInf = True"
| "is_inf NegInf = True"
| "is_inf x = False"

fun magnitude :: "jsnum \<Rightarrow> rat" where
  "magnitude (Fin q) = q"
| "magnitude x = 0"

definition is_zero :: "jsnum \<Rightarrow> bool" where
  "is_zero x = (x = NegZero \<or> x = Fin 0)"

definition signed_zero :: "bool \<Rightarrow> jsnum" where
  "signed_zero neg = (if neg then NegZero else Fin 0)"

definition signed_inf :: "bool \<Rightarrow> jsnum" where
  "signed_inf neg = (if neg then NegInf else PosInf)"

definition js_add :: "jsnum \<Rightarrow> jsnum \<Rightarrow> jsnum" where
  "js_add a b =
     (if a = NaN \<or> b = NaN then NaN
      else if is_inf a \<and> is_inf b then (if a = b then a else NaN)
      else if is_inf a then a
      else if is_inf b then b
      else if a = NegZero \<and> b = NegZero then NegZero
      else to_double (magnitude a + magnitude b))"

definition js_sub :: "jsnum \<Rightarrow> jsnum \<Rightarrow> jsnum" where
  "js_sub a b = js_add a (js_neg b)"

definition js_mul :: "jsnum \<Rightarrow> jsnum \<Rightarrow> jsnum" where
  "js_mul a b =
     (if a = NaN \<or> b = NaN then NaN
      else if is_inf a \<or> is_inf b then
        (if is_zero a \<or> is_zero b then NaN else signed_inf (is_neg a \<noteq> is_neg b))
      else if magnitude a * magnitude b = 0 then signed_zero (is_neg a \<noteq> is_neg b)
      else to_double (magnitude a * magnitude b))"

definition js_div :: "jsnum \<Rightarrow> jsnum \<Rightarrow> jsnum" where
  "js_div a b =
     (if a = NaN \<or> b = NaN then NaN
      else if is_inf a then (if is_inf b then NaN else signed_inf (is_neg a \<noteq> is_neg b))
      else if is_inf b then signed_zero (is_neg a \<noteq> is_neg b)
      else if is_zero b then (if is_zero a then NaN else signed_inf (is_neg a \<noteq> is_neg b))
      else if is_zero a then signed_zero (is_neg a \<noteq> is_neg b)
      else to_double (magnitude a / magnitude b))"

fun Math_ceil :: "jsnum \<Rightarrow> jsnum" where
  "Math_ceil (Fin q) = (if \<lceil>q\<rceil> = 0 \<and> q < 0 then NegZero else Fin (of_int \<lceil>q\<rceil>))"
| "Math_ceil x = x"


text \<open>The comparison \<open>a < b\<close> of two numbers; \<open>a > b\<close> is \<open>b < a\<close>.\<close>

definition js_lt :: "jsnum \<Rightarrow> jsnum \<Rightarrow> bool" where
  "js_lt a b =
     (if a = NaN \<or> b = NaN then False
      else if a = PosInf \<or> b = NegInf then False
      else if a = NegInf \<or> b = PosInf then True
      else magnitude a < magnitude b)"

definition js_gt :: "jsnum \<Rightarrow> jsnum \<Rightarrow> bool" where
  "js_gt a b = js_lt b a"

text \<open>\<open>JSON.stringify\<close> writes a number that is not finite as \<open>null\<close>.\<close>

fun json_number :: "jsnum \<Rightarrow> rat option" where
  "json_number (Fin q) = Some q"
| "json_number NegZero = Some 0"
| "json_number x = None"

subsection \<open>parseInt\<close>

definition is_space :: "char \<Rightarrow> bool" where
  "is_space c = (c \<in> {CHR 0x09, CHR 0x0A, CHR 0x0B, CHR 0x0C, CHR 0x0D, CHR 0x20, CHR 0xA0})"

definition digit_value :: "char \<Rightarrow> nat option" where
  "digit_value c =
     (let n = (of_char c :: nat) in
      if 48 \<le> n \<and> n \<le> 57 then Some (n - 48)
      else if 97 \<le> n \<and> n \<le> 122 then Some (n - 87)
      else if 65 \<le> n \<and> n \<le> 90 then Some (n - 55)
      else None)"

definition is_digit :: "nat \<Rightarrow> char \<Rightarrow> bool" where
  "is_digit radix c = (case digit_value c of None \<Rightarrow> False | Some d \<Rightarrow> d < radix)"

definition digits_value :: "nat \<Rightarrow> string \<Rightarrow> nat" where
  "digits_value radix ds =
     foldl (\<lambda>acc c. acc * radix + (case digit_value c of None \<Rightarrow> 0 | Some d \<Rightarrow> d)) 0 ds"

definition strip_sign :: "string \<Rightarrow> bool \<times> string" where
  "strip_sign s =
     (case s of
        [] \<Rightarrow> (False, s)
      | c # r \<Rightarrow> if c = CHR ''-'' then (True, r) else if c = CHR ''+'' then (False, r) else (False, s))"

definition strip_prefix :: "string \<Rightarrow> nat \<times> string" where
  "strip_prefix s =
     (case s of
        c # x # r \<Rightarrow> if c = CHR ''0'' \<and> (x = CHR ''x'' \<or> x = CHR ''X'') then (16, r) else (10, s)
      | _ \<Rightarrow> (10, s))"

text \<open>
  \<open>parseInt(string)\<close> with no radix: leading white space is dropped, then an optional
  sign, then an optional \<open>0x\<close>, and the longest run of digits is read; no digit gives
  \<open>NaN\<close>, and a zero after a minus sign is negative zero; the value read is rounded to a
  double, so a long run of digits gives a rounded value or an infinity (the language lets
  an engine approximate a run of more than 20 digits; the rounding here is the exact
  one). A character of a string stands for the code unit of its code, below 256; the
  white space among these are the five control characters, the space and the no-break
  space.
\<close>

definition parseInt :: "string \<Rightarrow> jsnum" where
  "parseInt input =
     (case strip_sign (dropWhile is_space input) of
        (neg, s) \<Rightarrow>
          (case strip_prefix s of
             (radix, s') \<Rightarrow>
               (let ds = takeWhile (is_digit radix) s' in
                if ds = [] then NaN
                else if digits_value radix ds = 0 then signed_zero neg
                else if neg then to_double (- of_nat (digits_value radix ds))
                else to_double (of_nat (digits_value radix ds)))))"




subsection \<open>Array.prototype.slice\<close>

datatype int_or_inf = MinusInf | Finite int | PlusInf

fun ToIntegerOrInfinity :: "jsnum \<Rightarrow> int_or_inf" where
  "ToIntegerOrInfinity NaN = Finite 0"
| "ToIntegerOrInfinity NegZero = Finite 0"
| "ToIntegerOrInfinity PosInf = PlusInf"
| "ToIntegerOrInfinity NegInf = MinusInf"
| "ToIntegerOrInfinity (Fin q) = Finite (if q < 0 then \<lceil>q\<rceil> else \<lfloor>q\<rfloor>)"

fun relative_index :: "nat \<Rightarrow> int_or_inf \<Rightarrow> nat" where
  "relative_index len MinusInf = 0"
| "relative_index len PlusInf = len"
| "relative_index len (Finite i) = (if i < 0 then nat (max (int len + i) 0) else min (nat i) len)"

definition slice :: "'a list \<Rightarrow> jsnum \<Rightarrow> jsnum \<Rightarrow> 'a list" where
  "slice xs start final =
     (let k = relative_index (length xs) (ToIntegerOrInfinity start);
          e = relative_index (length xs) (ToIntegerOrInfinity final)
      in take (e - k) (drop k xs))"

subsection \<open>Array.prototype.sort\<close>

text \<open>
  The sort is stable: with a consistent comparator its result is the one of a stable
  insertion sort.
\<close>

fun insert_cmp :: "('a \<Rightarrow> 'a \<Rightarrow> int) \<Rightarrow> 'a \<Rightarrow> 'a list \<Rightarrow> 'a list" where
  "insert_cmp cmp x [] = [x]"
| "insert_cmp cmp x (y # ys) = (if 0 < cmp x y then y # insert_cmp cmp x ys else x # y # ys)"

definition sort_cmp :: "('a \<Rightarrow> 'a \<Rightarrow> int) \<Rightarrow> 'a list \<Rightarrow> 'a list" where
  "sort_cmp cmp xs = foldr (insert_cmp cmp) xs []"

text \<open>
  A comparator is consistent for the elements of an array when it is reflexive and
  symmetric in its zeros and transitive in its zeros, its negative and its positive
  results, as the language defines it.
\<close>

definition consistent_on :: "('a \<Rightarrow> 'a \<Rightarrow> int) \<Rightarrow> 'a list \<Rightarrow> bool" where
  "consistent_on cmp xs =
     list_all (\<lambda>a. cmp a a = 0 \<and>
       list_all (\<lambda>b. (if cmp a b = 0 then cmp b a = 0 else True) \<and>
         list_all (\<lambda>c.
           (if cmp a b = 0 \<and> cmp b c = 0 then cmp a c = 0 else True)
           \<and> (if cmp a b < 0 \<and> cmp b c < 0 then cmp a c < 0 else True)
           \<and> (if 0 < cmp a b \<and> 0 < cmp b c then 0 < cmp a c else True)) xs) xs) xs"

text \<open>
  \<open>Array.prototype.sort\<close> with a comparator. With a comparator that is not consistent
  for the array the language leaves the order to the engine: what the engine returns
  then, the elements of the array in some order, is the parameter \<open>engine\<close>.
\<close>

definition Array_sort ::
  "(('a \<Rightarrow> 'a \<Rightarrow> int) \<Rightarrow> 'a list \<Rightarrow> 'a list) \<Rightarrow> ('a \<Rightarrow> 'a \<Rightarrow> int) \<Rightarrow> 'a list \<Rightarrow> 'a list" where
  "Array_sort engine cmp xs = (if consistent_on cmp xs then sort_cmp cmp xs else engine cmp xs)"

subsection \<open>Strings\<close>

text \<open>The order \<open><\<close> of two strings: lexicographic, by character code.\<close>

fun str_lt :: "string \<Rightarrow> string \<Rightarrow> bool" where
  "str_lt [] [] = False"
| "str_lt [] (y # ys) = True"
| "str_lt (x # xs) [] = False"
| "str_lt (x # xs) (y # ys) =
     (if (of_char x :: nat) < of_char y then True
      else if (of_char y :: nat) < of_char x then False
      else str_lt xs ys)"

fun starts_with :: "string \<Rightarrow> string \<Rightarrow> bool" where
  "starts_with s [] = True"
| "starts_with [] (p # ps) = False"
| "starts_with (c # cs) (p # ps) = (c = p \<and> starts_with cs ps)"

text \<open>DynamoDB's \<open>contains\<close> on a string attribute: the operand occurs in it, case and all.\<close>

fun contains_str :: "string \<Rightarrow> string \<Rightarrow> bool" where
  "contains_str [] sub = starts_with [] sub"
| "contains_str (c # cs) sub = (starts_with (c # cs) sub \<or> contains_str cs sub)"

definition attr_contains :: "string option \<Rightarrow> string \<Rightarrow> bool" where
  "attr_contains a sub = (case a of None \<Rightarrow> False | Some v \<Rightarrow> contains_str v sub)"

text \<open>Case folding of a letter, for stating what a case-insensitive match would be.\<close>

definition to_lower :: "char \<Rightarrow> char" where
  "to_lower c =
     (let n = (of_char c :: nat) in if 65 \<le> n \<and> n \<le> 90 then char_of (n + 32) else c)"

definition contains_ci :: "string option \<Rightarrow> string \<Rightarrow> bool" where
  "contains_ci a sub = attr_contains (map_option (map to_lower) a) (map to_lower sub)"

section \<open>getAllCountriesPaginated\<close>

record query =
  q_page :: "string option"
  q_limit :: "string option"
  q_sort_by :: "string option"
  q_search :: "string option"

datatype sort_field = SortName | SortPopulation | SortArea

definition sort_criteria :: "string \<Rightarrow> sort_field \<times> int" where
  "sort_criteria sort_by =
     (if sort_by = ''a_to_z'' then (SortName, 1)
      else if sort_by = ''z_to_a'' then (SortName, - 1)
      else if sort_by = ''population_high_to_low'' then (SortPopulation, - 1)
      else if sort_by = ''population_low_to_high'' then (SortPopulation, 1)
      else if sort_by = ''area_high_to_low'' then (SortArea, - 1)
      else if sort_by = ''area_low_to_high'' then (SortArea, 1)
      else (SortName, 1))"

text \<open>\<open>aValue < bValue\<close> where either value may be \<open>undefined\<close>: then it is false.\<close>

definition lt_undefined :: "('a \<Rightarrow> 'a \<Rightarrow> bool) \<Rightarrow> 'a option \<Rightarrow> 'a option \<Rightarrow> bool" where
  "lt_undefined lt a b =
     (case a of None \<Rightarrow> False | Some x \<Rightarrow> (case b of None \<Rightarrow> False | Some y \<Rightarrow> lt x y))"

fun field_lt :: "sort_field \<Rightarrow> country \<Rightarrow> country \<Rightarrow> bool" where
  "field_lt SortName a b = lt_undefined str_lt (name a) (name b)"
| "field_lt SortPopulation a b = lt_undefined (<) (population a) (population b)"
| "field_lt SortArea a b = lt_undefined (<) (area a) (area b)"

fun field_missing :: "sort_field \<Rightarrow> country \<Rightarrow> bool" where
  "field_missing SortName a = (name a = None)"
| "field_missing SortPopulation a = (population a = None)"
| "field_missing SortArea a = (area a = None)"

text \<open>The comparator handed to \<open>sort\<close>.\<close>

definition compare_items :: "sort_field \<Rightarrow> int \<Rightarrow> country \<Rightarrow> country \<Rightarrow> int" where
  "compare_items sortKey sortDirection a b =
     (if field_lt sortKey a b then - 1 * sortDirection
      else if field_lt sortKey b a then 1 * sortDirection
      else 0)"

text \<open>
  \<open>new RegExp(search, "i").source\<close>. A pattern of letters, digits and spaces is a valid
  pattern and is its own source. What the constructor does with any other pattern
  (it throws a \<open>SyntaxError\<close>, \<open>None\<close>, or gives a source text) is the parameter \<open>special\<close>.
\<close>

definition plain_char :: "char \<Rightarrow> bool" where
  "plain_char c =
     (let n = (of_char c :: nat) in
      (48 \<le> n \<and> n \<le> 57) \<or> (65 \<le> n \<and> n \<le> 90) \<or> (97 \<le> n \<and> n \<le> 122) \<or> n = 32)"

definition RegExp_source :: "(string \<Rightarrow> string option) \<Rightarrow> string \<Rightarrow> string option" where
  "RegExp_source special pattern =
     (if list_all plain_char pattern then Some pattern else special pattern)"

definition matches_filter :: "string \<Rightarrow> country \<Rightarrow> bool" where
  "matches_filter operand c =
     (attr_contains (name c) operand \<or> attr_contains (region c) operand
      \<or> attr_contains (subregion c) operand)"

text \<open>
  The scan: without a search (absent or the empty string) every item; with one, the items
  the filter expression keeps, unless the \<open>RegExp\<close> constructor threw.
\<close>

definition scan_countries ::
  "(string \<Rightarrow> string option) \<Rightarrow> store \<Rightarrow> string option \<Rightarrow> failure + country list" where
  "scan_countries special s search =
     (case search of
        None \<Rightarrow> Inr (CountryTable s)
      | Some text \<Rightarrow>
          if text = [] then Inr (CountryTable s)
          else (case RegExp_source special text of
                  None \<Rightarrow> Inl RegExpSyntaxError
                | Some operand \<Rightarrow> Inr (filter (matches_filter operand) (CountryTable s))))"

definition or_default :: "string option \<Rightarrow> string \<Rightarrow> string" where
  "or_default v d = (case v of None \<Rightarrow> d | Some x \<Rightarrow> x)"

definition getAllCountriesPaginated ::
  "(string \<Rightarrow> string option) \<Rightarrow>
   ((country \<Rightarrow> country \<Rightarrow> int) \<Rightarrow> country list \<Rightarrow> country list) \<Rightarrow>
   store \<Rightarrow> query \<Rightarrow> response" where
  "getAllCountriesPaginated special engine s q =
     (let page_s = or_default (q_page q) ''1'';
          limit_s = or_default (q_limit q) ''10'';
          sort_by = or_default (q_sort_by q) ''a_to_z'';
          skip = js_mul (js_sub (parseInt page_s) (Fin 1)) (parseInt limit_s)
      in case scan_countries special s (q_search q) of
           Inl e \<Rightarrow> \<lparr>statusCode = Some 500, payload = ErrorData ''Internal Server Error''\<rparr>
         | Inr found \<Rightarrow>
             (let Items = Array_sort engine (compare_items (fst (sort_criteria sort_by))
                                      (snd (sort_criteria sort_by))) found;
                  totalCountries = length Items;
                  totalPages = Math_ceil (js_div (Fin (of_nat totalCountries)) (parseInt limit_s));
                  countries = slice Items skip (js_add skip (parseInt limit_s));
                  hasNext = js_lt (parseInt page_s) totalPages;
                  hasPrev = js_gt (parseInt page_s) (Fin 1)
              in \<lparr>statusCode = Some 200,
                  payload = CountryList ''Country list''
                    \<lparr>list_items = countries, has_next = hasNext, has_prev = hasPrev,
                     page = parseInt page_s, pages = totalPages,
                     per_page = parseInt limit_s, total = totalCountries\<rparr>\<rparr>))"

text \<open>The \<open>data\<close> object of a listing answer.\<close>

definition listing_of :: "response \<Rightarrow> listing option" where
  "listing_of r = (case payload r of CountryList m l \<Rightarrow> Some l | _ \<Rightarrow> None)"

section \<open>addCountry\<close>

datatype country_body = NoBody | Unparsable | NotArray | Batch "country_req list"

text \<open>\<open>yup.string().required()\<close>: the value is there and is not the empty string.\<close>

definition required :: "string option \<Rightarrow> bool" where
  "required v = (case v of None \<Rightarrow> False | Some x \<Rightarrow> x \<noteq> [])"

definition countrySchema :: "country_req \<Rightarrow> bool" where
  "countrySchema c = (required (name c) \<and> required (capital c) \<and> required (region c)
     \<and> required (currency c))"

text \<open>\<open>{...country, countryID: v4()}\<close>: the caller's fields, with the identifier replaced.\<close>

definition with_countryID :: "country_req \<Rightarrow> string \<Rightarrow> country" where
  "with_countryID c k =
     \<lparr>name = name c, capital = capital c, region = region c, currency = currency c,
      population = population c, area = area c, subregion = subregion c, countryID = k\<rparr>"

text \<open>The \<open>map\<close> that draws one identifier per record; \<open>v4 i\<close> is the \<open>i\<close>-th one drawn.\<close>

fun assign_ids :: "(nat \<Rightarrow> string) \<Rightarrow> nat \<Rightarrow> country_req list \<Rightarrow> country list" where
  "assign_ids v4 i [] = []"
| "assign_ids v4 i (c # cs) = with_countryID c (v4 i) # assign_ids v4 (Suc i) cs"

text \<open>
  The one \<open>BatchWriteItem\<close> call. The service rejects a request that has no item, more
  than 25 items, or two items with the same key, and then writes nothing; otherwise every
  item is put. The service's limits on the size of an item and of a request are left out,
  and so are the items it may hand back unprocessed under load.
\<close>

definition batchWrite ::
  "(country \<Rightarrow> country list \<Rightarrow> nat) \<Rightarrow> country list \<Rightarrow> country list \<Rightarrow> failure + country list" where
  "batchWrite place tbl putRequests =
     (if putRequests = [] \<or> 25 < length putRequests \<or> \<not> distinct (map countryID putRequests)
      then Inl BatchRejected
      else Inr (foldl (\<lambda>t x. put_item place x t) tbl putRequests))"

definition internal_error :: "failure \<Rightarrow> response" where
  "internal_error e = \<lparr>statusCode = Some 500, payload = ErrorMessage ''Internal Server Error'' e\<rparr>"

definition addCountry ::
  "(nat \<Rightarrow> string) \<Rightarrow> (country \<Rightarrow> country list \<Rightarrow> nat) \<Rightarrow> store \<Rightarrow> country_body \<Rightarrow>
   store \<times> response" where
  "addCountry v4 place s requestBody =
     (case requestBody of
        NoBody \<Rightarrow> (s, internal_error BodyMissing)
      | Unparsable \<Rightarrow> (s, internal_error BodySyntaxError)
      | NotArray \<Rightarrow> (s, internal_error BodyNotArray)
      | Batch cs \<Rightarrow>
          if \<not> list_all countrySchema cs then (s, internal_error ValidationFailed)
          else (case batchWrite place (CountryTable s) (assign_ids v4 0 cs) of
                  Inl e \<Rightarrow> (s, internal_error e)
                | Inr tbl \<Rightarrow>
                    (s\<lparr>CountryTable := tbl\<rparr>,
                     \<lparr>statusCode = Some 201, payload = Created (assign_ids v4 0 cs)\<rparr>)))"

text \<open>
  The specification's wording of the validation, to compare with \<open>countrySchema\<close>: a
  record is missing a required field when one of the four is not there or is empty.
\<close>

definition absent :: "string option \<Rightarrow> bool" where
  "absent v = (v = None \<or> v = Some [])"

definition missing_required_field :: "country_req \<Rightarrow> bool" where
  "missing_required_field c =
     (absent (name c) \<or> absent (capital c) \<or> absent (region c) \<or> absent (currency c))"

section \<open>getCountryNeighbors\<close>

definition key_order :: "string \<Rightarrow> string \<Rightarrow> int" where
  "key_order a b = (if str_lt a b then - 1 else if str_lt b a then 1 else 0)"

text \<open>The query returns the items of one partition in the order of their range key.\<close>

definition fetchNeighborsByCountryId :: "store \<Rightarrow> string \<Rightarrow> string list" where
  "fetchNeighborsByCountryId s cid =
     sort_cmp key_order (map snd (filter (\<lambda>p. fst p = cid) (NeighborsTable s)))"

definition neighbor_projection :: "country \<Rightarrow> neighbor_view" where
  "neighbor_projection neighbor =
     \<lparr>view_id = countryID neighbor, view_name = name neighbor,
      view_currency = currency neighbor, view_capital = capital neighbor,
      view_region = region neighbor\<rparr>"

text \<open>\<open>Promise.all\<close> over the lookups: one rejection rejects the whole.\<close>

fun resolve_neighbors :: "store \<Rightarrow> string list \<Rightarrow> failure + neighbor_view list" where
  "resolve_neighbors s [] = Inr []"
| "resolve_neighbors s (neighborId # rest) =
     (case fetchCountryById s neighborId of
        Inl e \<Rightarrow> Inl e
      | Inr neighbor \<Rightarrow>
          (case resolve_neighbors s rest of
             Inl e \<Rightarrow> Inl e
           | Inr views \<Rightarrow> Inr (neighbor_projection neighbor # views)))"

text \<open>
  The catch block of the handler. \<open>fetchCountryById\<close> throws for an absent country, for
  the requested one and for a neighbour alike, so the handler's \<open>if (!country)\<close> branch
  is never taken.
\<close>

definition some_error :: "failure \<Rightarrow> response" where
  "some_error e = \<lparr>statusCode = error_statusCode e, payload = ErrorMessage ''Some Error'' e\<rparr>"

definition getCountryNeighbors :: "store \<Rightarrow> string \<Rightarrow> response" where
  "getCountryNeighbors s cid =
     (case fetchCountryById s cid of
        Inl e \<Rightarrow> some_error e
      | Inr item \<Rightarrow>
          (let neighbors = fetchNeighborsByCountryId s cid in
           if length neighbors = 0 then
             \<lparr>statusCode = Some 200, payload = NeighbourCountries ''Country neighbours'' []\<rparr>
           else
             (case resolve_neighbors s neighbors of
                Inl e \<Rightarrow> some_error e
              | Inr neighborCountries \<Rightarrow>
                  \<lparr>statusCode = Some 200,
                   payload = NeighbourCountries ''Neighbour countries list'' neighborCountries\<rparr>)))"

section \<open>Reachable stores\<close>

text \<open>
  The stores the handlers can produce from the empty tables. The reading handlers leave
  the store as it is; the source has no handler that deletes or updates an item.
\<close>

inductive reachable :: "store \<Rightarrow> bool" where
  initial: "reachable \<lparr>CountryTable = [], NeighborsTable = []\<rparr>"
| country_added: "reachable s \<Longrightarrow> reachable (fst (addCountry v4 place s requestBody))"
| neighbors_added: "reachable s \<Longrightarrow> reachable (fst (addNeighbors s cid neighborData))"

definition referential_integrity :: "store \<Rightarrow> bool" where
  "referential_integrity s =
     list_all (\<lambda>p. fst p \<in> set (fetchAllCountryIds s) \<and> snd p \<in> set (fetchAllCountryIds s))
       (NeighborsTable s)"

section \<open>Example data\<close>

text \<open>Three countries and a few stores, for evaluating the handlers.\<close>

definition Alpha :: country where
  "Alpha = \<lparr>name = Some ''Alpha'', capital = Some ''Acity'', region = Some ''North'',
     currency = Some ''AAA'', population = Some 10, area = None, subregion = None,
     countryID = ''A''\<rparr>"

definition Beta :: country where
  "Beta = \<lparr>name = Some ''Beta'', capital = Some ''Bcity'', region = Some ''South'',
     currency = Some ''BBB'', population = Some 20, area = Some 5, subregion = Some ''West'',
     countryID = ''B''\<rparr>"

definition Gamma :: country where
  "Gamma = \<lparr>name = Some ''Gamma'', capital = Some ''Gcity'', region = Some ''South'',
     currency = Some ''GGG'', population = None, area = None, subregion = None,
     countryID = ''G''\<rparr>"

definition example_store :: store where
  "example_store = \<lparr>CountryTable = [Alpha, Beta], NeighborsTable = []\<rparr>"

text \<open>A store in which a relation of \<open>A\<close> names a country that is not in the table.\<close>

definition dangling_store :: store where
  "dangling_store = \<lparr>CountryTable = [Alpha, Beta], NeighborsTable = [(''A'', ''Z'')]\<rparr>"

text \<open>A store in which \<open>B\<close> already is a neighbour of \<open>A\<close>.\<close>

definition related_store :: store where
  "related_store = \<lparr>CountryTable = [Alpha, Beta], NeighborsTable = [(''A'', ''B'')]\<rparr>"

text \<open>Two posted records, the first with an identifier of the caller's, and two drawn identifiers.\<close>

definition AlphaReq :: country_req where
  "AlphaReq = \<lparr>name = Some ''Alpha'', capital = Some ''Acity'', region = Some ''North'',
     currency = Some ''AAA'', population = Some 10, area = None, subregion = None,
     suppliedID = Some ''mine''\<rparr>"

definition BetaReq :: country_req where
  "BetaReq = \<lparr>name = Some ''Beta'', capital = Some ''Bcity'', region = Some ''South'',
     currency = Some ''BBB'', population = Some 20, area = Some 5, subregion = Some ''West'',
     suppliedID = None\<rparr>"

definition NamelessReq :: country_req where
  "NamelessReq = \<lparr>name = None, capital = Some ''Ncity'', region = Some ''East'',
     currency = Some ''NNN'', population = None, area = None, subregion = None,
     suppliedID = None\<rparr>"

definition two_ids :: "nat \<Rightarrow> string" where
  "two_ids i = (if i = 0 then ''A'' else ''B'')"

text \<open>Identifiers that are all different: the \<open>i\<close>-th one is \<open>i + 1\<close> letters long.\<close>

definition many_ids :: "nat \<Rightarrow> string" where
  "many_ids i = replicate (Suc i) (CHR ''x'')"

text \<open>A table order that has every new key last, and an engine that sorts by insertion.\<close>

definition at_end :: "country \<Rightarrow> country list \<Rightarrow> nat" where
  "at_end x tbl = length tbl"

definition insertion_engine ::
  "(country \<Rightarrow> country \<Rightarrow> int) \<Rightarrow> country list \<Rightarrow> country list" where
  "insertion_engine cmp xs = sort_cmp cmp xs"

definition empty_store :: store where
  "empty_store = \<lparr>CountryTable = [], NeighborsTable = []\<rparr>"

text \<open>
  A value for the parameter of \<open>RegExp_source\<close>: the constructor throws for every pattern
  that has a character other than a letter, a digit or a space.
\<close>

definition strict_RegExp :: "string \<Rightarrow> string option" where
  "strict_RegExp pattern = None"

section \<open>Properties of the numbers\<close>

lemma ilog2_lower: assumes "0 < q" shows "2 powi (ilog2 q) \<le> q"
proof -
  obtain a b where ab: "quotient_of q = (a, b)" by (cases "quotient_of q")
  then have q: "q = of_int a / of_int b" and b: "0 < b"
    by (simp_all add: quotient_of_div quotient_of_denom_pos)
  from assms q b have a: "0 < a" by (simp add: zero_less_divide_iff)
  show ?thesis
  proof (cases "2 powi (bitlen a - bitlen b) \<le> q")
    case True
    then show ?thesis by (simp add: ilog2_def ab)
  next
    case False
    have la: "(2::rat) ^ nat (bitlen a - 1) \<le> of_int a"
      using bitlen_bounds [OF a] by (metis of_int_le_iff of_int_numeral of_int_power)
    have lb: "of_int b < (2::rat) ^ nat (bitlen b)"
      using bitlen_bounds [OF b] by (metis of_int_less_iff of_int_numeral of_int_power)
    have pa: "1 \<le> bitlen a" using a bitlen_eq_zero_iff [of a] bitlen_nonneg [of a] by linarith
    have pb: "1 \<le> bitlen b" using b bitlen_eq_zero_iff [of b] bitlen_nonneg [of b] by linarith
    have "(2::rat) powi (bitlen a - bitlen b - 1) = 2 powi (bitlen a - 1) / 2 powi (bitlen b)"
      by (simp add: power_int_diff)
    also have "\<dots> = 2 ^ nat (bitlen a - 1) / 2 ^ nat (bitlen b)"
      using pa pb by (simp add: power_int_def)
    also have "\<dots> \<le> of_int a / 2 ^ nat (bitlen b)"
      using la by (simp add: divide_right_mono)
    also have "\<dots> \<le> of_int a / of_int b"
      using lb a b by (simp add: frac_le)
    finally have "(2::rat) powi (bitlen a - bitlen b - 1) \<le> q" by (simp only: q)
    moreover from False have "ilog2 q = bitlen a - bitlen b - 1"
      by (simp add: ilog2_def ab)
    ultimately show ?thesis by simp
  qed
qed

lemma round_half_even_error: "\<bar>of_int (round_half_even m) - m\<bar> \<le> 1 / 2"
proof -
  have lo: "of_int \<lfloor>m\<rfloor> \<le> m" and hi: "m < of_int \<lfloor>m\<rfloor> + 1" by linarith+
  consider "m - of_int \<lfloor>m\<rfloor> < 1 / 2" | "1 / 2 < m - of_int \<lfloor>m\<rfloor>" | "m - of_int \<lfloor>m\<rfloor> = 1 / 2"
    by linarith
  then show ?thesis
  proof cases
    case 1
    then have eq: "round_half_even m = \<lfloor>m\<rfloor>" by (simp add: round_half_even_def)
    from 1 lo show ?thesis unfolding eq by linarith
  next
    case 2
    then have eq: "round_half_even m = \<lfloor>m\<rfloor> + 1" by (simp add: round_half_even_def)
    from 2 hi show ?thesis unfolding eq by simp
  next
    case 3
    then have "round_half_even m = \<lfloor>m\<rfloor> \<or> round_half_even m = \<lfloor>m\<rfloor> + 1"
      by (simp add: round_half_even_def)
    then show ?thesis
    proof
      assume eq: "round_half_even m = \<lfloor>m\<rfloor>"
      from 3 show ?thesis unfolding eq by linarith
    next
      assume eq: "round_half_even m = \<lfloor>m\<rfloor> + 1"
      from 3 show ?thesis unfolding eq by simp
    qed
  qed
qed

lemma least_ulp_pos: "0 < least_ulp"
  by (simp add: least_ulp_def)

lemma ulp_pos: "0 < ulp q"
  by (simp add: ulp_def least_ulp_pos)

lemma nearest_error: "\<bar>nearest q - q\<bar> \<le> ulp q / 2"
proof -
  have "nearest q - q = (of_int (round_half_even (q / ulp q)) - q / ulp q) * ulp q"
    using ulp_pos [of q] by (simp add: nearest_def algebra_simps)
  then have "\<bar>nearest q - q\<bar> = \<bar>of_int (round_half_even (q / ulp q)) - q / ulp q\<bar> * ulp q"
    using ulp_pos [of q] by (simp add: abs_mult)
  also have "\<dots> \<le> 1 / 2 * ulp q"
    using round_half_even_error [of "q / ulp q"] ulp_pos [of q]
    by (intro mult_right_mono) simp_all
  finally show ?thesis by simp
qed

lemma ulp_bound: assumes "0 < q" shows "ulp q / 2 \<le> max (q / 2 ^ 53) (least_ulp / 2)"
proof (cases "- 1022 \<le> ilog2 q")
  case True
  then have "ulp q = 2 powi (ilog2 q) / 2 ^ 52"
    by (simp add: ulp_def power_int_diff)
  also have "\<dots> \<le> q / 2 ^ 52"
    using ilog2_lower [OF assms] by (simp add: divide_right_mono)
  finally have "ulp q / 2 \<le> q / 2 ^ 53" by simp
  then show ?thesis by simp
next
  case False
  then have "ulp q = least_ulp" by (simp add: ulp_def)
  then show ?thesis by simp
qed

lemma least_ulp_overflow: "least_ulp * overflow < 1"
proof -
  have "least_ulp * overflow = 2 powi (- 1074 + 1024)"
    unfolding least_ulp_def overflow_def by (rule power_int_add [symmetric]) simp
  also have "\<dots> = 2 powi (- 50)" by simp
  also have "\<dots> < 2 powi 0" by (rule power_int_strict_increasing) simp_all
  finally show ?thesis by simp
qed

lemma overflow_large: "2 ^ 53 < overflow"
proof -
  have "(2::rat) ^ 53 = 2 powi 53" by (simp add: power_int_def)
  also have "\<dots> < 2 powi 1024" by (rule power_int_strict_increasing) simp_all
  finally show ?thesis by (simp only: overflow_def)
qed

lemma to_double_nat: "n \<le> 2 ^ 53 \<Longrightarrow> to_double (of_nat n) = Fin (of_nat n)"
proof -
  assume "n \<le> 2 ^ 53"
  then have "rat_of_nat n \<le> of_nat (2 ^ 53)" by (simp only: of_nat_le_iff)
  then have "rat_of_nat n \<le> 2 ^ 53" by simp
  then show ?thesis by (simp add: to_double_def to_double_pos_def)
qed

lemma to_double_of_pos: "0 < x \<Longrightarrow> to_double x = to_double_pos x"
  by (simp add: to_double_def)

lemma to_double_pos_general:
  "\<not> (of_int \<lfloor>q\<rfloor> = q \<and> q \<le> 2 ^ 53) \<Longrightarrow>
   to_double_pos q = (if overflow \<le> nearest q then PosInf else Fin (nearest q))"
  unfolding to_double_pos_def by (rule if_not_P)

lemma to_double_pos_exact:
  "of_int \<lfloor>q\<rfloor> = q \<and> q \<le> 2 ^ 53 \<Longrightarrow> to_double_pos q = Fin q"
  unfolding to_double_pos_def by (rule if_P)


lemma to_double_pos_error:
  assumes "0 < q"
  shows "\<exists>r. \<bar>r - q\<bar> \<le> max (q / 2 ^ 53) (least_ulp / 2)
            \<and> to_double_pos q = (if overflow \<le> r then PosInf else Fin r)"
proof (cases "of_int \<lfloor>q\<rfloor> = q \<and> q \<le> 2 ^ 53")
  case True
  then have "to_double_pos q = Fin q" by (rule to_double_pos_exact)
  moreover from True overflow_large have "\<not> overflow \<le> q" by simp
  moreover from assms least_ulp_pos have "\<bar>q - q\<bar> \<le> max (q / 2 ^ 53) (least_ulp / 2)" by simp
  ultimately show ?thesis by (intro exI [of _ q]) simp
next
  case False
  then have "to_double_pos q = (if overflow \<le> nearest q then PosInf else Fin (nearest q))"
    by (rule to_double_pos_general)
  moreover have "\<bar>nearest q - q\<bar> \<le> max (q / 2 ^ 53) (least_ulp / 2)"
    using nearest_error [of q] ulp_bound [OF assms] by linarith
  ultimately show ?thesis by blast
qed







lemma ceil_div_double:
  assumes n: "n < 2 ^ 53" and l: "0 < l" and fin: "rat_of_nat l < overflow"
  shows "Math_ceil (js_div (Fin (of_nat n)) (Fin (of_nat l)))
           = Fin (of_int \<lceil>rat_of_nat n / rat_of_nat l\<rceil>)"
proof (cases "n = 0")
  case True
  with l show ?thesis by (simp add: js_div_def is_zero_def signed_zero_def)
next
  case False
  let ?q = "rat_of_nat n / rat_of_nat l"
  from False l have q: "0 < ?q" by simp
  from False l have "js_div (Fin (of_nat n)) (Fin (of_nat l)) = to_double ?q"
    by (simp add: js_div_def is_zero_def)
  then have div: "js_div (Fin (of_nat n)) (Fin (of_nat l)) = to_double_pos ?q"
    by (simp only: to_double_of_pos [OF q])
  show ?thesis
  proof (cases "l dvd n")
    case True
    then obtain k where k: "n = l * k" by (auto simp: dvd_def)
    with l have qk: "?q = of_nat k" by simp
    from l have "k \<le> l * k" by simp
    also from k n have "l * k < 2 ^ 53" by simp
    finally have "k < 2 ^ 53" .
    then have "to_double (rat_of_nat k) = Fin (of_nat k)" by (simp add: to_double_nat)
    moreover from q qk have "to_double (rat_of_nat k) = to_double_pos (of_nat k)"
      by (simp only: to_double_of_pos)
    ultimately show ?thesis by (simp add: div qk)
  next
    case False
    define k where "k = n div l"
    define m where "m = n mod l"
    have n_eq: "n = k * l + m" by (simp add: k_def m_def)
    from False have m: "0 < m" "m < l" using l by (auto simp: m_def dvd_eq_mod_eq_0)
    have qkm: "?q = of_nat k + of_nat m / of_nat l"
      using l by (simp add: n_eq add_divide_distrib)
    have lo: "of_nat k + 1 / of_nat l \<le> ?q"
    proof -
      have "(1::rat) \<le> of_nat m" using m by simp
      then have "1 / rat_of_nat l \<le> of_nat m / of_nat l" using l by (simp add: divide_right_mono)
      then show ?thesis by (simp add: qkm)
    qed
    have hi: "?q \<le> of_nat k + 1 - 1 / of_nat l"
    proof -
      from m have "m + 1 \<le> l" by simp
      then have "rat_of_nat m + 1 \<le> of_nat l" by (metis of_nat_1 of_nat_add of_nat_le_iff)
      then have "rat_of_nat m \<le> of_nat l - 1" by simp
      then have "rat_of_nat m / of_nat l \<le> (of_nat l - 1) / of_nat l"
        using l by (simp add: divide_right_mono)
      also have "\<dots> = 1 - 1 / of_nat l" using l by (simp add: diff_divide_distrib)
      finally show ?thesis by (simp add: qkm)
    qed
    from to_double_pos_error [OF q] obtain r where
      err: "\<bar>r - ?q\<bar> \<le> max (?q / 2 ^ 53) (least_ulp / 2)"
      and val: "to_double_pos ?q = (if overflow \<le> r then PosInf else Fin r)" by blast
    have b1: "?q / 2 ^ 53 < 1 / of_nat l"
    proof -
      from n have "rat_of_nat n < of_nat (2 ^ 53)" by (simp only: of_nat_less_iff)
      then have "rat_of_nat n < 2 ^ 53" by simp
      then have "rat_of_nat n / 2 ^ 53 < 1" by simp
      then have "rat_of_nat n / 2 ^ 53 / of_nat l < 1 / of_nat l"
        using l by (intro divide_strict_right_mono) simp_all
      moreover have "?q / 2 ^ 53 = rat_of_nat n / 2 ^ 53 / of_nat l"
        by (simp only: divide_divide_eq_left mult.commute)
      ultimately show ?thesis by (simp only:)
    qed
    have b2: "least_ulp / 2 < 1 / of_nat l"
    proof -
      have "least_ulp * rat_of_nat l \<le> least_ulp * overflow"
        using fin least_ulp_pos by (simp add: mult_left_mono)
      also have "\<dots> < 1" by (rule least_ulp_overflow)
      finally have "least_ulp < 1 / of_nat l" using l by (simp add: pos_less_divide_eq)
      moreover have "least_ulp / 2 \<le> least_ulp" using least_ulp_pos by simp
      ultimately show ?thesis by linarith
    qed
    from err b1 b2 have "\<bar>r - ?q\<bar> < 1 / of_nat l" by simp
    with lo hi have r: "of_nat k < r" "r < of_nat k + 1" by linarith+
    have k53: "rat_of_nat k + 1 \<le> 2 ^ 53"
    proof -
      have "k \<le> n" by (simp add: k_def)
      with n have "k + 1 \<le> 2 ^ 53" by simp
      then have "rat_of_nat (k + 1) \<le> of_nat (2 ^ 53)" by (simp only: of_nat_le_iff)
      then show ?thesis by simp
    qed
    from r k53 overflow_large have "\<not> overflow \<le> r" by linarith
    with val have res: "to_double_pos ?q = Fin r" by simp
    have cr: "\<lceil>r\<rceil> = int k + 1"
      using r by (intro ceiling_unique) simp_all
    have cq: "\<lceil>?q\<rceil> = int k + 1"
    proof (intro ceiling_unique)
      from lo l show "of_int (int k + 1) - 1 < ?q"
        by (simp add: less_le_trans [of _ "of_nat k + 1 / of_nat l"])
      from hi l show "?q \<le> of_int (int k + 1)"
        by (simp add: order_trans [of _ "of_nat k + 1 - 1 / of_nat l"])
    qed
    have "0 \<le> rat_of_nat k" by simp
    with r have "\<not> r < 0" by linarith
    then show ?thesis by (simp add: div res cr cq)
  qed
qed










lemma of_nat_two53: "rat_of_nat (2 ^ 53) = 2 ^ 53"
  by simp



section \<open>Properties of the sort\<close>

lemma set_insert_cmp: "set (insert_cmp cmp x xs) = insert x (set xs)"
  by (induction xs) auto

lemma set_sort_cmp: "set (sort_cmp cmp xs) = set xs"
  unfolding sort_cmp_def by (induction xs) (simp_all add: set_insert_cmp)

lemma length_insert_cmp: "length (insert_cmp cmp x xs) = Suc (length xs)"
  by (induction xs) auto

lemma length_sort_cmp: "length (sort_cmp cmp xs) = length xs"
  unfolding sort_cmp_def by (induction xs) (simp_all add: length_insert_cmp)



lemma consistent_onD:
  assumes "consistent_on cmp xs" and "a \<in> set xs" and "b \<in> set xs" and "c \<in> set xs"
  shows "cmp a a = 0"
    and "cmp a b = 0 \<Longrightarrow> cmp b a = 0"
    and "cmp a b = 0 \<Longrightarrow> cmp b c = 0 \<Longrightarrow> cmp a c = 0"
    and "cmp a b < 0 \<Longrightarrow> cmp b c < 0 \<Longrightarrow> cmp a c < 0"
    and "0 < cmp a b \<Longrightarrow> 0 < cmp b c \<Longrightarrow> 0 < cmp a c"
  using assms unfolding consistent_on_def list_all_iff
  by (metis (mono_tags, lifting))+


lemma consistent_on_flip':
  assumes con: "consistent_on cmp xs" and a: "a \<in> set xs" and b: "b \<in> set xs"
    and neg: "cmp a b < 0"
  shows "0 < cmp b a"
proof -
  have "cmp b a \<noteq> 0"
    using consistent_onD(2) [OF con b a a] neg by auto
  moreover have "\<not> cmp b a < 0"
  proof
    assume "cmp b a < 0"
    from consistent_onD(4) [OF con a b a neg this] consistent_onD(1) [OF con a a a]
    show False by simp
  qed
  ultimately show ?thesis by linarith
qed


lemma consistent_on_subset:
  "consistent_on cmp xs \<Longrightarrow> set ys \<subseteq> set xs \<Longrightarrow> consistent_on cmp ys"
  unfolding consistent_on_def list_all_iff by blast




subsection \<open>The order of strings\<close>

lemma str_lt_irrefl: "\<not> str_lt a a"
  by (induction a) simp_all

lemma str_lt_trans: "str_lt a b \<Longrightarrow> str_lt b c \<Longrightarrow> str_lt a c"
proof (induction a b arbitrary: c rule: str_lt.induct)
  case 1
  then show ?case by simp
next
  case (2 y ys)
  then show ?case by (cases c) simp_all
next
  case (3 x xs)
  then show ?case by simp
next
  case (4 x xs y ys)
  then show ?case
  proof (cases c)
    case Nil
    with 4 show ?thesis by simp
  next
    case (Cons z zs)
    with 4 show ?thesis
      by (auto split: if_splits)
  qed
qed

lemma str_lt_total: "\<not> str_lt a b \<Longrightarrow> \<not> str_lt b a \<Longrightarrow> a = b"
proof (induction a b rule: str_lt.induct)
  case (4 x xs y ys)
  then have "(of_char x :: nat) = of_char y" by (auto split: if_splits)
  then have "x = y" by simp
  with 4 show ?case by (auto split: if_splits)
qed simp_all

lemma if_then_trueI: "(P \<Longrightarrow> Q) \<Longrightarrow> (if P then Q else True)"
  by simp

lemma consistent_onI:
  assumes "\<And>a. a \<in> set xs \<Longrightarrow> cmp a a = 0"
    and "\<And>a b. a \<in> set xs \<Longrightarrow> b \<in> set xs \<Longrightarrow> cmp a b = 0 \<Longrightarrow> cmp b a = 0"
    and "\<And>a b c. a \<in> set xs \<Longrightarrow> b \<in> set xs \<Longrightarrow> c \<in> set xs \<Longrightarrow>
           cmp a b = 0 \<Longrightarrow> cmp b c = 0 \<Longrightarrow> cmp a c = 0"
    and "\<And>a b c. a \<in> set xs \<Longrightarrow> b \<in> set xs \<Longrightarrow> c \<in> set xs \<Longrightarrow>
           cmp a b < 0 \<Longrightarrow> cmp b c < 0 \<Longrightarrow> cmp a c < 0"
    and "\<And>a b c. a \<in> set xs \<Longrightarrow> b \<in> set xs \<Longrightarrow> c \<in> set xs \<Longrightarrow>
           0 < cmp a b \<Longrightarrow> 0 < cmp b c \<Longrightarrow> 0 < cmp a c"
  shows "consistent_on cmp xs"
  unfolding consistent_on_def list_all_iff
proof (intro ballI conjI)
  fix a assume a: "a \<in> set xs"
  show "cmp a a = 0" by (rule assms(1) [OF a])
  fix b assume b: "b \<in> set xs"
  show "if cmp a b = 0 then cmp b a = 0 else True"
    by (rule if_then_trueI) (rule assms(2) [OF a b])
  fix c assume c: "c \<in> set xs"
  show "if cmp a b = 0 \<and> cmp b c = 0 then cmp a c = 0 else True"
    by (rule if_then_trueI) (blast intro: assms(3) [OF a b c])
  show "if cmp a b < 0 \<and> cmp b c < 0 then cmp a c < 0 else True"
    by (rule if_then_trueI) (blast intro: assms(4) [OF a b c])
  show "if 0 < cmp a b \<and> 0 < cmp b c then 0 < cmp a c else True"
    by (rule if_then_trueI) (blast intro: assms(5) [OF a b c])
qed

lemma order_comparator_consistent:
  fixes lt :: "'v \<Rightarrow> 'v \<Rightarrow> bool"
  assumes irrefl: "\<And>u. \<not> lt u u"
    and trans: "\<And>u v w. lt u v \<Longrightarrow> lt v w \<Longrightarrow> lt u w"
    and total: "\<And>u v. \<not> lt u v \<Longrightarrow> \<not> lt v u \<Longrightarrow> u = v"
    and cmp: "\<And>a b. a \<in> set xs \<Longrightarrow> b \<in> set xs \<Longrightarrow>
                cmp a b = (if lt (f a) (f b) then - d else if lt (f b) (f a) then d else (0::int))"
  shows "consistent_on cmp xs"
proof -
  have asym: "lt u v \<Longrightarrow> \<not> lt v u" for u v using irrefl trans by blast
  consider "d = 0" | "0 < d" | "d < 0" by linarith
  then show ?thesis
  proof cases
    case 1
    with cmp have zero: "cmp a b = 0" if "a \<in> set xs" "b \<in> set xs" for a b
      using that by simp
    show ?thesis by (rule consistent_onI) (simp_all add: zero)
  next
    case 2
    have neg: "cmp a b < 0 \<longleftrightarrow> lt (f a) (f b)" if "a \<in> set xs" "b \<in> set xs" for a b
      using cmp [OF that] 2 asym by auto
    have pos: "0 < cmp a b \<longleftrightarrow> lt (f b) (f a)" if "a \<in> set xs" "b \<in> set xs" for a b
      using cmp [OF that] 2 asym by auto
    have zero: "cmp a b = 0 \<longleftrightarrow> f a = f b" if "a \<in> set xs" "b \<in> set xs" for a b
      using cmp [OF that] 2 irrefl total by (auto split: if_splits)
    show ?thesis
    proof (rule consistent_onI)
      fix a b c assume m: "a \<in> set xs" "b \<in> set xs" "c \<in> set xs"
      show "cmp a a = 0" using zero [OF m(1) m(1)] by simp
      show "cmp a b = 0 \<Longrightarrow> cmp b a = 0" using zero [OF m(1) m(2)] zero [OF m(2) m(1)] by simp
      show "cmp a b = 0 \<Longrightarrow> cmp b c = 0 \<Longrightarrow> cmp a c = 0"
        using zero [OF m(1) m(2)] zero [OF m(2) m(3)] zero [OF m(1) m(3)] by simp
      show "cmp a b < 0 \<Longrightarrow> cmp b c < 0 \<Longrightarrow> cmp a c < 0"
        using neg [OF m(1) m(2)] neg [OF m(2) m(3)] neg [OF m(1) m(3)] trans by blast
      show "0 < cmp a b \<Longrightarrow> 0 < cmp b c \<Longrightarrow> 0 < cmp a c"
        using pos [OF m(1) m(2)] pos [OF m(2) m(3)] pos [OF m(1) m(3)] trans by blast
    qed
  next
    case 3
    have neg: "cmp a b < 0 \<longleftrightarrow> lt (f b) (f a)" if "a \<in> set xs" "b \<in> set xs" for a b
      using cmp [OF that] 3 asym by auto
    have pos: "0 < cmp a b \<longleftrightarrow> lt (f a) (f b)" if "a \<in> set xs" "b \<in> set xs" for a b
      using cmp [OF that] 3 asym by auto
    have zero: "cmp a b = 0 \<longleftrightarrow> f a = f b" if "a \<in> set xs" "b \<in> set xs" for a b
      using cmp [OF that] 3 irrefl total by (auto split: if_splits)
    show ?thesis
    proof (rule consistent_onI)
      fix a b c assume m: "a \<in> set xs" "b \<in> set xs" "c \<in> set xs"
      show "cmp a a = 0" using zero [OF m(1) m(1)] by simp
      show "cmp a b = 0 \<Longrightarrow> cmp b a = 0" using zero [OF m(1) m(2)] zero [OF m(2) m(1)] by simp
      show "cmp a b = 0 \<Longrightarrow> cmp b c = 0 \<Longrightarrow> cmp a c = 0"
        using zero [OF m(1) m(2)] zero [OF m(2) m(3)] zero [OF m(1) m(3)] by simp
      show "cmp a b < 0 \<Longrightarrow> cmp b c < 0 \<Longrightarrow> cmp a c < 0"
        using neg [OF m(1) m(2)] neg [OF m(2) m(3)] neg [OF m(1) m(3)] trans by blast
      show "0 < cmp a b \<Longrightarrow> 0 < cmp b c \<Longrightarrow> 0 < cmp a c"
        using pos [OF m(1) m(2)] pos [OF m(2) m(3)] pos [OF m(1) m(3)] trans by blast
    qed
  qed
qed

lemma compare_items_consistent:
  assumes present: "list_all (\<lambda>c. \<not> field_missing sortKey c) xs"
  shows "consistent_on (compare_items sortKey sortDirection) xs"
proof (cases sortKey)
  case SortName
  show ?thesis
  proof (rule order_comparator_consistent [where lt = str_lt and f = "\<lambda>c. the (name c)" and d = sortDirection])
    fix a b assume "a \<in> set xs" "b \<in> set xs"
    with present SortName have "name a \<noteq> None" "name b \<noteq> None"
      by (auto simp: list_all_iff)
    then show "compare_items sortKey sortDirection a b =
        (if str_lt (the (name a)) (the (name b)) then - sortDirection
         else if str_lt (the (name b)) (the (name a)) then sortDirection else 0)"
      by (auto simp: compare_items_def SortName lt_undefined_def)
  next
    fix u show "\<not> str_lt u u" by (rule str_lt_irrefl)
  next
    fix u v w show "str_lt u v \<Longrightarrow> str_lt v w \<Longrightarrow> str_lt u w" by (rule str_lt_trans)
  next
    fix u v show "\<not> str_lt u v \<Longrightarrow> \<not> str_lt v u \<Longrightarrow> u = v" by (rule str_lt_total)
  qed
next
  case SortPopulation
  show ?thesis
  proof (rule order_comparator_consistent [where lt = "(<)" and f = "\<lambda>c. the (population c)" and d = sortDirection])
    fix a b assume "a \<in> set xs" "b \<in> set xs"
    with present SortPopulation have "population a \<noteq> None" "population b \<noteq> None"
      by (auto simp: list_all_iff)
    then show "compare_items sortKey sortDirection a b =
        (if the (population a) < the (population b) then - sortDirection
         else if the (population b) < the (population a) then sortDirection else 0)"
      by (auto simp: compare_items_def SortPopulation lt_undefined_def)
  qed simp_all
next
  case SortArea
  show ?thesis
  proof (rule order_comparator_consistent [where lt = "(<)" and f = "\<lambda>c. the (area c)" and d = sortDirection])
    fix a b assume "a \<in> set xs" "b \<in> set xs"
    with present SortArea have "area a \<noteq> None" "area b \<noteq> None"
      by (auto simp: list_all_iff)
    then show "compare_items sortKey sortDirection a b =
        (if the (area a) < the (area b) then - sortDirection
         else if the (area b) < the (area a) then sortDirection else 0)"
      by (auto simp: compare_items_def SortArea lt_undefined_def)
  qed simp_all
qed

section \<open>Properties of addNeighbors\<close>

lemmas example_defs =
  example_store_def dangling_store_def related_store_def Alpha_def Beta_def Gamma_def

lemma neighbors_loop_lengths:
  "neighbors_loop cid ids ns (tbl, errs, adds) = (tbl', errs', adds') \<Longrightarrow>
   length adds' + length errs' = length adds + length errs + length ns"
proof (induction ns arbitrary: tbl errs adds)
  case Nil
  then show ?case by simp
next
  case (Cons n ns)
  then show ?case by (auto split: if_splits)
qed

lemma neighbors_loop_append:
  "neighbors_loop cid ids (xs @ ys) st = neighbors_loop cid ids ys (neighbors_loop cid ids xs st)"
proof (induction xs arbitrary: st)
  case Nil
  show ?case by simp
next
  case (Cons x xs)
  obtain tbl errs adds where st: "st = (tbl, errs, adds)" by (cases st) auto
  show ?case unfolding st by (simp add: Cons.IH)
qed

lemma neighbors_loop_table:
  "neighbors_loop cid ids ns (tbl, errs, adds) = (tbl', errs', adds') \<Longrightarrow>
   set tbl' = set tbl \<union> {cid} \<times> (set ns \<inter> set ids)"
proof (induction ns arbitrary: tbl errs adds)
  case Nil
  then show ?case by simp
next
  case (Cons n ns)
  show ?case
  proof (cases "n \<in> set ids")
    case False
    with Cons.prems have "neighbors_loop cid ids ns (tbl, errs @ [invalid_neighbor_error n], adds) = (tbl', errs', adds')"
      by simp
    from Cons.IH [OF this] False show ?thesis by auto
  next
    case True
    show ?thesis
    proof (cases "fetchNeighbor tbl cid n")
      case present: True
      with True Cons.prems have "neighbors_loop cid ids ns (tbl, errs @ [neighbor_exists_error n], adds) = (tbl', errs', adds')"
        by simp
      from Cons.IH [OF this] True present show ?thesis by (auto simp: fetchNeighbor_def)
    next
      case absent: False
      with True Cons.prems have "neighbors_loop cid ids ns (addNeighbor tbl cid n, errs, adds @ [n]) = (tbl', errs', adds')"
        by simp
      from Cons.IH [OF this] True absent show ?thesis by (auto simp: fetchNeighbor_def addNeighbor_def)
    qed
  qed
qed

lemma neighbors_loop_added_grows:
  "neighbors_loop cid ids ns (tbl, errs, adds) = (tbl', errs', adds') \<Longrightarrow>
   \<exists>more. adds' = adds @ more"
proof (induction ns arbitrary: tbl errs adds)
  case Nil
  then show ?case by simp
next
  case (Cons n ns)
  then show ?case by (fastforce split: if_splits)
qed

lemma neighbors_loop_unchanged:
  "neighbors_loop cid ids ns (tbl, errs, adds) = (tbl', errs', adds') \<Longrightarrow>
   adds' = adds \<Longrightarrow> tbl' = tbl"
proof (induction ns arbitrary: tbl errs adds)
  case Nil
  then show ?case by simp
next
  case (Cons n ns)
  show ?case
  proof (cases "n \<in> set ids \<and> \<not> fetchNeighbor tbl cid n")
    case False
    with Cons show ?thesis by (auto split: if_splits)
  next
    case True
    with Cons.prems have loop: "neighbors_loop cid ids ns (addNeighbor tbl cid n, errs, adds @ [n]) = (tbl', errs', adds')"
      by simp
    from neighbors_loop_added_grows [OF loop] Cons.prems(2) show ?thesis by simp
  qed
qed

lemma addNeighbors_store:
  assumes found: "fetchCountryById s cid = Inr item"
  shows "\<exists>tbl. fst (addNeighbors s cid neighborData) = s\<lparr>NeighborsTable := tbl\<rparr>
           \<and> set tbl = set (NeighborsTable s)
                 \<union> {cid} \<times> (set neighborData \<inter> set (fetchAllCountryIds s))"
proof -
  obtain tbl errs adds where
    loop: "neighbors_loop cid (fetchAllCountryIds s) neighborData (NeighborsTable s, [], [])
             = (tbl, errs, adds)"
    by (cases "neighbors_loop cid (fetchAllCountryIds s) neighborData (NeighborsTable s, [], [])")
  have "fst (addNeighbors s cid neighborData) = s\<lparr>NeighborsTable := tbl\<rparr>"
    using found loop by (simp add: addNeighbors_def)
  with neighbors_loop_table [OF loop] show ?thesis by blast
qed

lemma addNeighbors_absent:
  assumes "fetchCountryById s cid = Inl e"
  shows "fst (addNeighbors s cid neighborData) = s"
  using assms by (simp add: addNeighbors_def)

lemma fetchCountryById_cases:
  "fetchCountryById s k = Inl (HttpError 404 not_found_message) \<and> k \<notin> set (fetchAllCountryIds s)
   \<or> (\<exists>item. fetchCountryById s k = Inr item \<and> item \<in> set (CountryTable s) \<and> countryID item = k)"
proof (cases "get_item (CountryTable s) k")
  case None
  then have "fetchCountryById s k = Inl (HttpError 404 not_found_message)"
    by (simp add: fetchCountryById_def)
  moreover from None have "k \<notin> set (fetchAllCountryIds s)"
    by (auto simp: get_item_def fetchAllCountryIds_def find_None_iff)
  ultimately show ?thesis by simp
next
  case (Some item)
  then have "fetchCountryById s k = Inr item"
    by (simp add: fetchCountryById_def)
  moreover from Some have "item \<in> set (CountryTable s) \<and> countryID item = k"
    by (auto simp: get_item_def find_Some_iff)
  ultimately show ?thesis by simp
qed

text \<open>
  C3. When the source country exists, the response follows the number of neighbours the
  loop added. With none added the answer is status 400 with an empty neighbours list and
  the accumulated errors, and the store is as before. With at least one added it is status
  200 with the added identifiers and the errors. One valid and one invalid identifier, in
  either order, give status 200 with one added identifier and one error.
\<close>

theorem addNeighbors_reports_outcome:
  assumes found: "fetchCountryById s cid = Inr item"
    and loop: "neighbors_loop cid (fetchAllCountryIds s) neighborData (NeighborsTable s, [], [])
             = (tbl, errors, added)"
  shows "(added = [] \<longrightarrow>
            addNeighbors s cid neighborData =
              (s, \<lparr>statusCode = Some 400,
                   payload = NeighborsFailed ''Failed to add neighbors'' [] errors\<rparr>))
       \<and> (added \<noteq> [] \<longrightarrow>
            snd (addNeighbors s cid neighborData) =
              \<lparr>statusCode = Some 200,
               payload = NeighborsAdded ''Neighbors added successfully'' added errors\<rparr>)
       \<and> (valid \<in> set (fetchAllCountryIds s) \<and> (cid, valid) \<notin> set (NeighborsTable s)
            \<and> invalid \<notin> set (fetchAllCountryIds s) \<longrightarrow>
            snd (addNeighbors s cid [valid, invalid]) =
              \<lparr>statusCode = Some 200,
               payload = NeighborsAdded ''Neighbors added successfully'' [valid]
                 [''Invalid neighbor country ID: '' @ invalid]\<rparr>
          \<and> snd (addNeighbors s cid [invalid, valid]) =
              \<lparr>statusCode = Some 200,
               payload = NeighborsAdded ''Neighbors added successfully'' [valid]
                 [''Invalid neighbor country ID: '' @ invalid]\<rparr>)"
proof (intro conjI impI)
  assume none: "added = []"
  with loop have "tbl = NeighborsTable s"
    using neighbors_loop_unchanged [OF loop] by simp
  with found loop none show "addNeighbors s cid neighborData =
      (s, \<lparr>statusCode = Some 400, payload = NeighborsFailed ''Failed to add neighbors'' [] errors\<rparr>)"
    by (simp add: addNeighbors_def)
next
  assume "added \<noteq> []"
  with found loop show "snd (addNeighbors s cid neighborData) =
      \<lparr>statusCode = Some 200,
       payload = NeighborsAdded ''Neighbors added successfully'' added errors\<rparr>"
    by (simp add: addNeighbors_def)
next
  assume mix: "valid \<in> set (fetchAllCountryIds s) \<and> (cid, valid) \<notin> set (NeighborsTable s)
            \<and> invalid \<notin> set (fetchAllCountryIds s)"
  with found show "snd (addNeighbors s cid [valid, invalid]) =
              \<lparr>statusCode = Some 200,
               payload = NeighborsAdded ''Neighbors added successfully'' [valid]
                 [''Invalid neighbor country ID: '' @ invalid]\<rparr>"
    by (simp add: addNeighbors_def fetchNeighbor_def invalid_neighbor_error_def)
next
  assume mix: "valid \<in> set (fetchAllCountryIds s) \<and> (cid, valid) \<notin> set (NeighborsTable s)
            \<and> invalid \<notin> set (fetchAllCountryIds s)"
  with found show "snd (addNeighbors s cid [invalid, valid]) =
              \<lparr>statusCode = Some 200,
               payload = NeighborsAdded ''Neighbors added successfully'' [valid]
                 [''Invalid neighbor country ID: '' @ invalid]\<rparr>"
    by (simp add: addNeighbors_def fetchNeighbor_def invalid_neighbor_error_def)
qed

theorem addNeighbors_reports_outcome_witness:
  "fetchCountryById example_store ''A'' = Inr Alpha
   \<and> addNeighbors example_store ''A'' [''X''] =
       (example_store, \<lparr>statusCode = Some 400,
          payload = NeighborsFailed ''Failed to add neighbors'' []
            [''Invalid neighbor country ID: X'']\<rparr>)
   \<and> snd (addNeighbors example_store ''A'' [''B'']) =
       \<lparr>statusCode = Some 200,
        payload = NeighborsAdded ''Neighbors added successfully'' [''B''] []\<rparr>
   \<and> snd (addNeighbors example_store ''A'' [''B'', ''X'']) =
       \<lparr>statusCode = Some 200,
        payload = NeighborsAdded ''Neighbors added successfully'' [''B'']
          [''Invalid neighbor country ID: X'']\<rparr>
   \<and> snd (addNeighbors example_store ''A'' [''X'', ''B'']) =
       \<lparr>statusCode = Some 200,
        payload = NeighborsAdded ''Neighbors added successfully'' [''B'']
          [''Invalid neighbor country ID: X'']\<rparr>"
proof -
  have found: "fetchCountryById example_store ''A'' = Inr Alpha"
    by (simp add: fetchCountryById_def get_item_def example_defs)
  have ids: "fetchAllCountryIds example_store = [''A'', ''B'']"
    by (simp add: fetchAllCountryIds_def example_defs)
  have nt: "NeighborsTable example_store = []"
    by (simp add: example_store_def)
  have none: "neighbors_loop ''A'' (fetchAllCountryIds example_store) [''X'']
      (NeighborsTable example_store, [], []) = ([], [''Invalid neighbor country ID: X''], [])"
    by (simp add: ids nt invalid_neighbor_error_def)
  have one: "neighbors_loop ''A'' (fetchAllCountryIds example_store) [''B'']
      (NeighborsTable example_store, [], []) = ([(''A'', ''B'')], [], [''B''])"
    by (simp add: ids nt fetchNeighbor_def addNeighbor_def)
  have mix: "''B'' \<in> set (fetchAllCountryIds example_store)
      \<and> (''A'', ''B'') \<notin> set (NeighborsTable example_store)
      \<and> ''X'' \<notin> set (fetchAllCountryIds example_store)"
    by (simp add: ids nt)
  from addNeighbors_reports_outcome [OF found none, of "''B''" "''X''"]
    addNeighbors_reports_outcome [OF found one, of "''B''" "''X''"] mix found
  show ?thesis by simp
qed

lemma is_rejected_snoc:
  "i < length xs \<Longrightarrow> is_rejected ids tbl cid (xs @ [x]) i = is_rejected ids tbl cid xs i"
  by (simp add: is_rejected_def nth_append)

lemma is_rejected_last:
  "is_rejected ids tbl cid (xs @ [x]) (length xs)
     = (x \<notin> set ids \<or> (cid, x) \<in> set tbl \<or> x \<in> set xs)"
  by (simp add: is_rejected_def)

lemma filter_upt_snoc:
  "filter P [0..<Suc n] = filter P [0..<n] @ (if P n then [n] else [])"
  by simp

lemma neighbors_loop_outcome:
  "neighbors_loop cid ids ns (tbl, errs, adds) =
     (tbl @ map (\<lambda>i. (cid, ns ! i)) (filter (\<lambda>i. \<not> is_rejected ids tbl cid ns i) [0..<length ns]),
      errs @ map (\<lambda>i. rejection_text ids (ns ! i)) (filter (is_rejected ids tbl cid ns) [0..<length ns]),
      adds @ map (\<lambda>i. ns ! i) (filter (\<lambda>i. \<not> is_rejected ids tbl cid ns i) [0..<length ns]))"
proof (induction ns rule: rev_induct)
  case Nil
  show ?case by simp
next
  case (snoc x xs)
  let ?acc = "filter (\<lambda>i. \<not> is_rejected ids tbl cid xs i) [0..<length xs]"
  let ?rej = "filter (is_rejected ids tbl cid xs) [0..<length xs]"
  let ?T = "tbl @ map (\<lambda>i. (cid, xs ! i)) ?acc"
  have acc: "filter (\<lambda>i. \<not> is_rejected ids tbl cid (xs @ [x]) i) [0..<length xs] = ?acc"
    by (rule filter_cong) (simp_all add: is_rejected_snoc)
  have rej: "filter (is_rejected ids tbl cid (xs @ [x])) [0..<length xs] = ?rej"
    by (rule filter_cong) (simp_all add: is_rejected_snoc)
  have nth_acc: "map (\<lambda>i. (xs @ [x]) ! i) ?acc = map (\<lambda>i. xs ! i) ?acc"
    by (rule map_cong) (simp_all add: nth_append)
  have pair_acc: "map (\<lambda>i. (cid, (xs @ [x]) ! i)) ?acc = map (\<lambda>i. (cid, xs ! i)) ?acc"
    by (rule map_cong) (simp_all add: nth_append)
  have text_rej: "map (\<lambda>i. rejection_text ids ((xs @ [x]) ! i)) ?rej
                    = map (\<lambda>i. rejection_text ids (xs ! i)) ?rej"
    by (rule map_cong) (simp_all add: nth_append)
  from neighbors_loop_table [OF snoc.IH]
  have T: "set ?T = set tbl \<union> {cid} \<times> (set xs \<inter> set ids)" .
  have last: "is_rejected ids tbl cid (xs @ [x]) (length xs)
                = (x \<notin> set ids \<or> (cid, x) \<in> set ?T)"
    unfolding is_rejected_last T by auto
  have step: "neighbors_loop cid ids (xs @ [x]) (tbl, errs, adds)
                = neighbors_loop cid ids [x] (neighbors_loop cid ids xs (tbl, errs, adds))"
    by (rule neighbors_loop_append)
  show ?case
  proof (cases "is_rejected ids tbl cid (xs @ [x]) (length xs)")
    case True
    with last have "x \<notin> set ids \<or> (cid, x) \<in> set ?T" by simp
    then have "neighbors_loop cid ids [x] (?T, errs @ map (\<lambda>i. rejection_text ids (xs ! i)) ?rej,
                   adds @ map (\<lambda>i. xs ! i) ?acc)
        = (?T, errs @ map (\<lambda>i. rejection_text ids (xs ! i)) ?rej @ [rejection_text ids x],
           adds @ map (\<lambda>i. xs ! i) ?acc)"
      by (auto simp: fetchNeighbor_def rejection_text_def invalid_neighbor_error_def
          neighbor_exists_error_def)
    with True show ?thesis
      unfolding step snoc.IH
      by (simp add: acc rej nth_acc pair_acc text_rej)
  next
    case False
    with last have "x \<in> set ids" "(cid, x) \<notin> set ?T" by simp_all
    then have "neighbors_loop cid ids [x] (?T, errs @ map (\<lambda>i. rejection_text ids (xs ! i)) ?rej,
                   adds @ map (\<lambda>i. xs ! i) ?acc)
        = (?T @ [(cid, x)], errs @ map (\<lambda>i. rejection_text ids (xs ! i)) ?rej,
           adds @ map (\<lambda>i. xs ! i) ?acc @ [x])"
      by (simp add: fetchNeighbor_def addNeighbor_def)
    with False show ?thesis
      unfolding step snoc.IH
      by (simp add: acc rej nth_acc pair_acc text_rej)
  qed
qed

lemma upt_3: "[0..<3] = [0, 1, 2]"
  by (simp add: upt_rec)

text \<open>
  C6, as the code has it. Each proposed identifier is handled on its own, in the order of
  the batch. The element at position \<open>i\<close> is rejected when its identifier is not among
  the country identifiers, when its relation is in the table before the batch, or when
  the same identifier stands earlier in the batch; every other element is added. The
  errors of the answer are the texts of the rejected elements, in the order of the batch:
  \<open>Invalid neighbor country ID: <id>\<close> for an identifier that is not a country's and
  \<open>Neighbor with ID <id> already exists for this country\<close> for any other one. The added
  list and the relations written are those of the elements that are not rejected, so no
  rejection ends the loop. A batch of one unknown identifier, or of one identifier whose
  relation exists, answers 400 with that one error and writes nothing. Adding an
  identifier of an earlier batch again puts it into the errors and adds nothing.
\<close>

theorem addNeighbors_rejects_per_element:
  assumes found: "fetchCountryById s cid = Inr item"
  shows "errors_of (payload (snd (addNeighbors s cid neighborData))) =
           map (\<lambda>i. if neighborData ! i \<in> set (fetchAllCountryIds s)
                     then ''Neighbor with ID '' @ neighborData ! i @ '' already exists for this country''
                     else ''Invalid neighbor country ID: '' @ neighborData ! i)
             (filter (is_rejected (fetchAllCountryIds s) (NeighborsTable s) cid neighborData)
                [0..<length neighborData])
       \<and> added_of (payload (snd (addNeighbors s cid neighborData))) =
           map (\<lambda>i. neighborData ! i)
             (filter (\<lambda>i. \<not> is_rejected (fetchAllCountryIds s) (NeighborsTable s) cid neighborData i)
                [0..<length neighborData])
       \<and> NeighborsTable (fst (addNeighbors s cid neighborData)) =
           NeighborsTable s @ map (\<lambda>i. (cid, neighborData ! i))
             (filter (\<lambda>i. \<not> is_rejected (fetchAllCountryIds s) (NeighborsTable s) cid neighborData i)
                [0..<length neighborData])
       \<and> (n \<notin> set (fetchAllCountryIds s) \<longrightarrow>
            addNeighbors s cid [n] =
              (s, \<lparr>statusCode = Some 400,
                   payload = NeighborsFailed ''Failed to add neighbors'' []
                     [''Invalid neighbor country ID: '' @ n]\<rparr>))
       \<and> (n \<in> set (fetchAllCountryIds s) \<and> (cid, n) \<in> set (NeighborsTable s) \<longrightarrow>
            addNeighbors s cid [n] =
              (s, \<lparr>statusCode = Some 400,
                   payload = NeighborsFailed ''Failed to add neighbors'' []
                     [''Neighbor with ID '' @ n @ '' already exists for this country'']\<rparr>))
       \<and> (n \<in> set neighborData \<longrightarrow>
            snd (addNeighbors (fst (addNeighbors s cid neighborData)) cid [n]) =
              \<lparr>statusCode = Some 400,
               payload = NeighborsFailed ''Failed to add neighbors'' []
                 [if n \<in> set (fetchAllCountryIds s)
                  then ''Neighbor with ID '' @ n @ '' already exists for this country''
                  else ''Invalid neighbor country ID: '' @ n]\<rparr>)"
proof -
  let ?ids = "fetchAllCountryIds s"
  let ?acc = "filter (\<lambda>i. \<not> is_rejected ?ids (NeighborsTable s) cid neighborData i)
                [0..<length neighborData]"
  let ?rej = "filter (is_rejected ?ids (NeighborsTable s) cid neighborData) [0..<length neighborData]"
  have loop: "neighbors_loop cid ?ids neighborData (NeighborsTable s, [], []) =
      (NeighborsTable s @ map (\<lambda>i. (cid, neighborData ! i)) ?acc,
       map (\<lambda>i. rejection_text ?ids (neighborData ! i)) ?rej,
       map (\<lambda>i. neighborData ! i) ?acc)"
    using neighbors_loop_outcome [of cid ?ids neighborData "NeighborsTable s" "[]" "[]"] by simp
  have texts: "map (\<lambda>i. rejection_text ?ids (neighborData ! i)) ?rej =
      map (\<lambda>i. if neighborData ! i \<in> set ?ids
                then ''Neighbor with ID '' @ neighborData ! i @ '' already exists for this country''
                else ''Invalid neighbor country ID: '' @ neighborData ! i) ?rej"
    by (simp add: rejection_text_def)
  have errors: "errors_of (payload (snd (addNeighbors s cid neighborData))) =
      map (\<lambda>i. rejection_text ?ids (neighborData ! i)) ?rej"
    using found loop by (simp add: addNeighbors_def)
  have added: "added_of (payload (snd (addNeighbors s cid neighborData))) =
      map (\<lambda>i. neighborData ! i) ?acc"
    using found loop by (cases "?acc = []") (simp_all add: addNeighbors_def)
  have table: "NeighborsTable (fst (addNeighbors s cid neighborData)) =
      NeighborsTable s @ map (\<lambda>i. (cid, neighborData ! i)) ?acc"
    using found loop by (simp add: addNeighbors_def)
  obtain tbl where
    after: "fst (addNeighbors s cid neighborData) = s\<lparr>NeighborsTable := tbl\<rparr>"
    and tbl: "set tbl = set (NeighborsTable s)
                \<union> {cid} \<times> (set neighborData \<inter> set (fetchAllCountryIds s))"
    using addNeighbors_store [OF found] by blast
  have found': "fetchCountryById (s\<lparr>NeighborsTable := tbl\<rparr>) cid = Inr item"
    using found by (simp add: fetchCountryById_def)
  have ids': "fetchAllCountryIds (s\<lparr>NeighborsTable := tbl\<rparr>) = fetchAllCountryIds s"
    by (simp add: fetchAllCountryIds_def)
  have invalid: "n \<notin> set (fetchAllCountryIds s) \<longrightarrow>
            addNeighbors s cid [n] =
              (s, \<lparr>statusCode = Some 400,
                   payload = NeighborsFailed ''Failed to add neighbors'' []
                     [''Invalid neighbor country ID: '' @ n]\<rparr>)"
    using found by (simp add: addNeighbors_def invalid_neighbor_error_def)
  have existing: "n \<in> set (fetchAllCountryIds s) \<and> (cid, n) \<in> set (NeighborsTable s) \<longrightarrow>
            addNeighbors s cid [n] =
              (s, \<lparr>statusCode = Some 400,
                   payload = NeighborsFailed ''Failed to add neighbors'' []
                     [''Neighbor with ID '' @ n @ '' already exists for this country'']\<rparr>)"
    using found by (simp add: addNeighbors_def fetchNeighbor_def neighbor_exists_error_def)
  have again: "n \<in> set neighborData \<longrightarrow>
            snd (addNeighbors (fst (addNeighbors s cid neighborData)) cid [n]) =
              \<lparr>statusCode = Some 400,
               payload = NeighborsFailed ''Failed to add neighbors'' []
                 [if n \<in> set (fetchAllCountryIds s)
                  then ''Neighbor with ID '' @ n @ '' already exists for this country''
                  else ''Invalid neighbor country ID: '' @ n]\<rparr>"
    unfolding after using found' ids' tbl
    by (simp add: addNeighbors_def fetchNeighbor_def neighbor_exists_error_def
        invalid_neighbor_error_def)
  from errors texts added table invalid existing again show ?thesis by (simp only:)
qed

theorem addNeighbors_rejects_per_element_witness:
  "fetchCountryById example_store ''A'' = Inr Alpha
   \<and> fetchCountryById related_store ''A'' = Inr Alpha
   \<and> errors_of (payload (snd (addNeighbors example_store ''A'' [''X'', ''B'', ''B''])))
       = [''Invalid neighbor country ID: X'', ''Neighbor with ID B already exists for this country'']
   \<and> added_of (payload (snd (addNeighbors example_store ''A'' [''X'', ''B'', ''B''])))
       = [''B'']
   \<and> NeighborsTable (fst (addNeighbors example_store ''A'' [''X'', ''B'', ''B'']))
       = [(''A'', ''B'')]
   \<and> addNeighbors example_store ''A'' [''X''] =
       (example_store, \<lparr>statusCode = Some 400,
          payload = NeighborsFailed ''Failed to add neighbors'' []
            [''Invalid neighbor country ID: X'']\<rparr>)
   \<and> addNeighbors related_store ''A'' [''B''] =
       (related_store, \<lparr>statusCode = Some 400,
          payload = NeighborsFailed ''Failed to add neighbors'' []
            [''Neighbor with ID B already exists for this country'']\<rparr>)
   \<and> snd (addNeighbors (fst (addNeighbors example_store ''A'' [''X'', ''B'', ''B''])) ''A'' [''B'']) =
       \<lparr>statusCode = Some 400,
        payload = NeighborsFailed ''Failed to add neighbors'' []
          [''Neighbor with ID B already exists for this country'']\<rparr>"
proof -
  have found: "fetchCountryById example_store ''A'' = Inr Alpha"
    by (simp add: fetchCountryById_def get_item_def example_defs)
  have found_r: "fetchCountryById related_store ''A'' = Inr Alpha"
    by (simp add: fetchCountryById_def get_item_def example_defs)
  have ids: "fetchAllCountryIds example_store = [''A'', ''B'']"
    by (simp add: fetchAllCountryIds_def example_defs)
  have ids_r: "fetchAllCountryIds related_store = [''A'', ''B'']"
    by (simp add: fetchAllCountryIds_def example_defs)
  have rel: "NeighborsTable related_store = [(''A'', ''B'')]"
    by (simp add: related_store_def)
  have nt: "NeighborsTable example_store = []"
    by (simp add: example_store_def)
  have len: "length [''X'', ''B'', ''B''] = 3" by simp
  note batch = addNeighbors_rejects_per_element [OF found, of "[''X'', ''B'', ''B'']" "''B''"]
  from batch have errors:
    "errors_of (payload (snd (addNeighbors example_store ''A'' [''X'', ''B'', ''B''])))
       = [''Invalid neighbor country ID: X'', ''Neighbor with ID B already exists for this country'']"
    unfolding ids nt len upt_3 by (simp add: is_rejected_def)
  from batch have added:
    "added_of (payload (snd (addNeighbors example_store ''A'' [''X'', ''B'', ''B''])))
       = [''B'']"
    unfolding ids nt len upt_3 by (simp add: is_rejected_def)
  from batch have table:
    "NeighborsTable (fst (addNeighbors example_store ''A'' [''X'', ''B'', ''B'']))
       = [(''A'', ''B'')]"
    unfolding ids nt len upt_3 by (simp add: is_rejected_def)
  from batch have again:
    "snd (addNeighbors (fst (addNeighbors example_store ''A'' [''X'', ''B'', ''B''])) ''A'' [''B'']) =
       \<lparr>statusCode = Some 400,
        payload = NeighborsFailed ''Failed to add neighbors'' []
          [''Neighbor with ID B already exists for this country'']\<rparr>"
    unfolding ids by simp
  from addNeighbors_rejects_per_element [OF found, of "[]" "''X''"]
  have invalid: "addNeighbors example_store ''A'' [''X''] =
       (example_store, \<lparr>statusCode = Some 400,
          payload = NeighborsFailed ''Failed to add neighbors'' []
            [''Invalid neighbor country ID: X'']\<rparr>)"
    by (simp add: ids)
  from addNeighbors_rejects_per_element [OF found_r, of "[]" "''B''"]
  have existing: "addNeighbors related_store ''A'' [''B''] =
       (related_store, \<lparr>statusCode = Some 400,
          payload = NeighborsFailed ''Failed to add neighbors'' []
            [''Neighbor with ID B already exists for this country'']\<rparr>)"
    by (simp add: ids_r rel)
  from found found_r errors added table invalid existing again show ?thesis by simp
qed

text \<open>
  The error texts are not the ones with a lower-case \<open>invalid neighbor country id\<close>: an
  unknown identifier \<open>X\<close> is reported as \<open>Invalid neighbor country ID: X\<close>.
\<close>

theorem addNeighbors_error_text_counterexample:
  "errors_of (payload (snd (addNeighbors example_store ''A'' [''X''])))
     = [''Invalid neighbor country ID: X'']
   \<and> errors_of (payload (snd (addNeighbors example_store ''A'' [''X''])))
     \<noteq> [''invalid neighbor country id: X'']
   \<and> errors_of (payload (snd (addNeighbors dangling_store ''A'' [''Z''])))
     = [''Invalid neighbor country ID: Z'']"
  by (simp add: addNeighbors_def fetchCountryById_def get_item_def fetchAllCountryIds_def
      example_store_def dangling_store_def Alpha_def Beta_def invalid_neighbor_error_def)

text \<open>
  C10. When the source country exists, every proposed neighbour identifier gives exactly
  one entry, either in the added list or in the error list of the response: the two
  lengths add up to the number of proposed neighbours.
\<close>

theorem addNeighbors_partitions_batch:
  assumes "fetchCountryById s cid = Inr item"
  shows "length (added_of (payload (snd (addNeighbors s cid neighborData))))
         + length (errors_of (payload (snd (addNeighbors s cid neighborData))))
         = length neighborData"
proof -
  obtain tbl errs adds where
    loop: "neighbors_loop cid (fetchAllCountryIds s) neighborData (NeighborsTable s, [], [])
             = (tbl, errs, adds)"
    by (cases "neighbors_loop cid (fetchAllCountryIds s) neighborData (NeighborsTable s, [], [])")
  from neighbors_loop_lengths [OF loop]
  have len: "length adds + length errs = length neighborData" by simp
  show ?thesis
  proof (cases "adds = []")
    case True
    with assms loop len show ?thesis by (simp add: addNeighbors_def)
  next
    case False
    with assms loop len show ?thesis by (simp add: addNeighbors_def)
  qed
qed

theorem addNeighbors_partitions_batch_witness:
  "fetchCountryById example_store ''A'' = Inr Alpha
   \<and> length (added_of (payload (snd (addNeighbors example_store ''A'' [''B'', ''X'']))))
     + length (errors_of (payload (snd (addNeighbors example_store ''A'' [''B'', ''X''])))) = 2"
proof -
  have found: "fetchCountryById example_store ''A'' = Inr Alpha"
    by (simp add: fetchCountryById_def get_item_def example_store_def Alpha_def Beta_def)
  from addNeighbors_partitions_batch [OF found, of "[''B'', ''X'']"] found
  show ?thesis by simp
qed

section \<open>Referential integrity of the neighbours table\<close>

lemma set_take_drop: "set (take k xs) \<union> set (drop k xs) = set xs"
  by (metis append_take_drop_id set_append)

lemma put_item_ids:
  "countryID ` set (put_item place x tbl) = insert (countryID x) (countryID ` set tbl)"
proof (cases "countryID x \<in> countryID ` set tbl")
  case True
  then have "put_item place x tbl = map (\<lambda>y. if countryID y = countryID x then x else y) tbl"
    by (simp add: put_item_def)
  moreover have "countryID ` set (map (\<lambda>y. if countryID y = countryID x then x else y) tbl)
                   = countryID ` set tbl"
    by (induction tbl) auto
  ultimately show ?thesis using True by auto
next
  case False
  then have "set (put_item place x tbl) = insert x (set (take (place x tbl) tbl) \<union> set (drop (place x tbl) tbl))"
    by (simp add: put_item_def)
  then show ?thesis by (simp add: set_take_drop)
qed

lemma foldl_put_item_ids:
  "countryID ` set (foldl (\<lambda>t x. put_item place x t) tbl xs)
     = countryID ` set tbl \<union> countryID ` set xs"
proof (induction xs arbitrary: tbl)
  case Nil
  show ?case by simp
next
  case (Cons x xs)
  show ?case by (simp add: Cons.IH put_item_ids)
qed

lemma batchWrite_ids:
  "batchWrite place tbl xs = Inr tbl' \<Longrightarrow>
   countryID ` set tbl' = countryID ` set tbl \<union> countryID ` set xs"
proof -
  assume "batchWrite place tbl xs = Inr tbl'"
  then have "tbl' = foldl (\<lambda>t x. put_item place x t) tbl xs"
    by (simp add: batchWrite_def split: if_splits)
  then show ?thesis by (simp only: foldl_put_item_ids)
qed

lemma addCountry_ids:
  "set (fetchAllCountryIds s) \<subseteq> set (fetchAllCountryIds (fst (addCountry v4 place s requestBody)))"
proof (cases requestBody)
  case (Batch cs)
  show ?thesis
  proof (cases "batchWrite place (CountryTable s) (assign_ids v4 0 cs)")
    case (Inl e)
    with Batch show ?thesis by (simp add: addCountry_def)
  next
    case (Inr tbl)
    from batchWrite_ids [OF Inr] Batch Inr show ?thesis
      by (auto simp: addCountry_def fetchAllCountryIds_def)
  qed
qed (simp_all add: addCountry_def)

lemma addCountry_neighbors:
  "NeighborsTable (fst (addCountry v4 place s requestBody)) = NeighborsTable s"
  by (cases requestBody) (simp_all add: addCountry_def split: sum.splits)

lemma addCountry_keeps_integrity:
  assumes "referential_integrity s"
  shows "referential_integrity (fst (addCountry v4 place s requestBody))"
  using assms addCountry_ids [of s v4 place requestBody]
  by (auto simp: referential_integrity_def list_all_iff addCountry_neighbors)

lemma addNeighbors_keeps_integrity:
  assumes "referential_integrity s"
  shows "referential_integrity (fst (addNeighbors s cid neighborData))"
proof -
  from fetchCountryById_cases [of s cid] show ?thesis
  proof (elim disjE conjE exE)
    assume "fetchCountryById s cid = Inl (HttpError 404 not_found_message)"
    then show ?thesis using assms by (simp add: addNeighbors_absent)
  next
    fix item
    assume found: "fetchCountryById s cid = Inr item"
      and item: "item \<in> set (CountryTable s)" "countryID item = cid"
    from item have cid: "cid \<in> set (fetchAllCountryIds s)"
      by (auto simp: fetchAllCountryIds_def)
    from addNeighbors_store [OF found, of neighborData] obtain tbl where
      after: "fst (addNeighbors s cid neighborData) = s\<lparr>NeighborsTable := tbl\<rparr>"
      and tbl: "set tbl = set (NeighborsTable s)
                  \<union> {cid} \<times> (set neighborData \<inter> set (fetchAllCountryIds s))"
      by blast
    have ids: "fetchAllCountryIds (s\<lparr>NeighborsTable := tbl\<rparr>) = fetchAllCountryIds s"
      by (simp add: fetchAllCountryIds_def)
    show ?thesis
      unfolding after using assms cid tbl
      by (auto simp: referential_integrity_def list_all_iff ids)
  qed
qed

lemma reachable_integrity: "reachable s \<Longrightarrow> referential_integrity s"
proof (induction rule: reachable.induct)
  case initial
  show ?case by (simp add: referential_integrity_def)
next
  case (country_added s v4 place requestBody)
  then show ?case by (simp add: addCountry_keeps_integrity)
next
  case (neighbors_added s cid neighborData)
  then show ?case by (simp add: addNeighbors_keeps_integrity)
qed

lemma addNeighbors_writes:
  assumes new: "p \<in> set (NeighborsTable (fst (addNeighbors s cid neighborData)))"
    and old: "p \<notin> set (NeighborsTable s)"
  shows "fst p = cid \<and> cid \<in> set (fetchAllCountryIds s) \<and> snd p \<in> set (fetchAllCountryIds s)
           \<and> snd p \<in> set neighborData"
proof -
  from fetchCountryById_cases [of s cid] show ?thesis
  proof (elim disjE conjE exE)
    assume "fetchCountryById s cid = Inl (HttpError 404 not_found_message)"
    with new old show ?thesis by (simp add: addNeighbors_absent)
  next
    fix item
    assume found: "fetchCountryById s cid = Inr item"
      and item: "item \<in> set (CountryTable s)" "countryID item = cid"
    from item have cid: "cid \<in> set (fetchAllCountryIds s)"
      by (auto simp: fetchAllCountryIds_def)
    from addNeighbors_store [OF found, of neighborData] obtain tbl where
      after: "fst (addNeighbors s cid neighborData) = s\<lparr>NeighborsTable := tbl\<rparr>"
      and tbl: "set tbl = set (NeighborsTable s)
                  \<union> {cid} \<times> (set neighborData \<inter> set (fetchAllCountryIds s))"
      by blast
    from new old cid show ?thesis unfolding after by (auto simp: tbl)
  qed
qed

lemma addCountry_example:
  "addCountry two_ids at_end empty_store (Batch [AlphaReq, BetaReq]) =
     (example_store, \<lparr>statusCode = Some 201, payload = Created [Alpha, Beta]\<rparr>)"
  by (simp add: addCountry_def countrySchema_def required_def with_countryID_def batchWrite_def
      put_item_def at_end_def two_ids_def AlphaReq_def BetaReq_def empty_store_def example_defs)

lemma reachable_example: "reachable example_store"
proof -
  have "reachable (fst (addCountry two_ids at_end \<lparr>CountryTable = [], NeighborsTable = []\<rparr>
          (Batch [AlphaReq, BetaReq])))"
    by (rule reachable.country_added [OF reachable.initial])
  then show ?thesis using addCountry_example by (simp add: empty_store_def)
qed

text \<open>
  C7. In every store the handlers can reach, each relation of the neighbours table has a
  country item for both of its identifiers, and \<open>addNeighbors\<close> keeps it so. A relation
  that a call of \<open>addNeighbors\<close> writes has the requested country as its source, which
  resolved at that time, and a neighbour that is among the fetched country identifiers
  and resolves as well.
\<close>

theorem neighbor_relations_reference_countries:
  assumes "reachable s"
  shows "referential_integrity s
       \<and> referential_integrity (fst (addNeighbors s cid neighborData))
       \<and> (p \<in> set (NeighborsTable (fst (addNeighbors s cid neighborData)))
            \<and> p \<notin> set (NeighborsTable s) \<longrightarrow>
          fst p = cid \<and> (\<exists>item. fetchCountryById s cid = Inr item)
          \<and> snd p \<in> set (fetchAllCountryIds s) \<and> (\<exists>item. fetchCountryById s (snd p) = Inr item))"
proof (intro conjI impI)
  show "referential_integrity s" using assms by (rule reachable_integrity)
  show "referential_integrity (fst (addNeighbors s cid neighborData))"
    using assms by (simp add: reachable_integrity addNeighbors_keeps_integrity)
next
  assume w: "p \<in> set (NeighborsTable (fst (addNeighbors s cid neighborData)))
            \<and> p \<notin> set (NeighborsTable s)"
  then have facts: "fst p = cid \<and> cid \<in> set (fetchAllCountryIds s) \<and> snd p \<in> set (fetchAllCountryIds s)"
    using addNeighbors_writes [of p s cid neighborData] by simp
  then show "fst p = cid" "snd p \<in> set (fetchAllCountryIds s)" by simp_all
  from facts fetchCountryById_cases [of s cid] show "\<exists>item. fetchCountryById s cid = Inr item"
    by auto
  from facts fetchCountryById_cases [of s "snd p"] show "\<exists>item. fetchCountryById s (snd p) = Inr item"
    by auto
qed

theorem neighbor_relations_reference_countries_witness:
  "reachable example_store
   \<and> referential_integrity example_store
   \<and> NeighborsTable (fst (addNeighbors example_store ''A'' [''X'', ''B''])) = [(''A'', ''B'')]
   \<and> referential_integrity (fst (addNeighbors example_store ''A'' [''X'', ''B'']))
   \<and> fetchCountryById example_store ''A'' = Inr Alpha
   \<and> fetchCountryById example_store ''B'' = Inr Beta"
proof -
  have tbl: "NeighborsTable (fst (addNeighbors example_store ''A'' [''X'', ''B''])) = [(''A'', ''B'')]"
    by (simp add: addNeighbors_def fetchCountryById_def get_item_def fetchAllCountryIds_def
        fetchNeighbor_def addNeighbor_def example_defs)
  have old: "NeighborsTable example_store = []" by (simp add: example_store_def)
  have A: "fetchCountryById example_store ''A'' = Inr Alpha"
    by (simp add: fetchCountryById_def get_item_def example_defs)
  have B: "fetchCountryById example_store ''B'' = Inr Beta"
    by (simp add: fetchCountryById_def get_item_def example_defs)
  from neighbor_relations_reference_countries
    [OF reachable_example, of "''A''" "[''X'', ''B'']" "(''A'', ''B'')"]
  show ?thesis using reachable_example tbl A B by simp
qed

section \<open>Properties of getCountryNeighbors\<close>

lemma resolve_neighbors_dangling:
  "n \<in> set ns \<Longrightarrow> fetchCountryById s n = Inl e \<Longrightarrow>
   resolve_neighbors s ns = Inl (HttpError 404 not_found_message)"
proof (induction ns)
  case Nil
  then show ?case by simp
next
  case (Cons m ns)
  from fetchCountryById_cases [of s m] show ?case
  proof (elim disjE conjE exE)
    assume "fetchCountryById s m = Inl (HttpError 404 not_found_message)"
    then show ?thesis by simp
  next
    fix item
    assume m: "fetchCountryById s m = Inr item"
    with Cons.prems have "n \<in> set ns" by auto
    from Cons.IH [OF this Cons.prems(2)] m show ?thesis by simp
  qed
qed

text \<open>
  C8, as the code has it. When the country exists and one of its stored relations names a
  country that does not resolve, the failure is not dropped: the whole request is answered
  with status 404 and the message \<open>Some Error\<close> carrying the \<open>not found\<close> error of the
  lookup. A request for a country that is itself absent is answered with status 404 too.
\<close>

theorem getCountryNeighbors_dangling_relation:
  assumes primary: "fetchCountryById s cid = Inr item"
    and relation: "(cid, n) \<in> set (NeighborsTable s)"
    and dangling: "fetchCountryById s n = Inl e"
  shows "getCountryNeighbors s cid =
           \<lparr>statusCode = Some 404,
            payload = ErrorMessage ''Some Error'' (HttpError 404 not_found_message)\<rparr>
       \<and> (fetchCountryById s other = Inl e' \<longrightarrow>
            statusCode (getCountryNeighbors s other) = Some 404)"
proof
  from relation have n: "n \<in> set (fetchNeighborsByCountryId s cid)"
    by (force simp: fetchNeighborsByCountryId_def set_sort_cmp)
  then have "fetchNeighborsByCountryId s cid \<noteq> []" by auto
  moreover from resolve_neighbors_dangling [OF n dangling]
  have "resolve_neighbors s (fetchNeighborsByCountryId s cid)
          = Inl (HttpError 404 not_found_message)" .
  ultimately show "getCountryNeighbors s cid =
           \<lparr>statusCode = Some 404,
            payload = ErrorMessage ''Some Error'' (HttpError 404 not_found_message)\<rparr>"
    using primary by (simp add: getCountryNeighbors_def some_error_def)
next
  show "fetchCountryById s other = Inl e' \<longrightarrow>
            statusCode (getCountryNeighbors s other) = Some 404"
    using fetchCountryById_cases [of s other]
    by (auto simp: getCountryNeighbors_def some_error_def)
qed

theorem getCountryNeighbors_dangling_relation_witness:
  "fetchCountryById dangling_store ''A'' = Inr Alpha
   \<and> (''A'', ''Z'') \<in> set (NeighborsTable dangling_store)
   \<and> fetchCountryById dangling_store ''Z'' = Inl (HttpError 404 not_found_message)
   \<and> fetchCountryById dangling_store ''Q'' = Inl (HttpError 404 not_found_message)
   \<and> getCountryNeighbors dangling_store ''A'' =
           \<lparr>statusCode = Some 404,
            payload = ErrorMessage ''Some Error'' (HttpError 404 not_found_message)\<rparr>
   \<and> statusCode (getCountryNeighbors dangling_store ''Q'') = Some 404"
proof -
  have primary: "fetchCountryById dangling_store ''A'' = Inr Alpha"
    by (simp add: fetchCountryById_def get_item_def example_defs)
  have relation: "(''A'', ''Z'') \<in> set (NeighborsTable dangling_store)"
    by (simp add: dangling_store_def)
  have dangling: "fetchCountryById dangling_store ''Z'' = Inl (HttpError 404 not_found_message)"
    by (simp add: fetchCountryById_def get_item_def example_defs)
  have other: "fetchCountryById dangling_store ''Q'' = Inl (HttpError 404 not_found_message)"
    by (simp add: fetchCountryById_def get_item_def example_defs)
  from getCountryNeighbors_dangling_relation [OF primary relation dangling, of "''Q''"]
    primary relation dangling other
  show ?thesis by simp
qed

text \<open>
  The answer to a dangling relation is not of the 500 class and is not distinct: it is the
  very response that an absent country gets.
\<close>

theorem getCountryNeighbors_dangling_counterexample:
  "fetchCountryById dangling_store ''A'' = Inr Alpha
   \<and> (''A'', ''Z'') \<in> set (NeighborsTable dangling_store)
   \<and> fetchCountryById dangling_store ''Z'' = Inl (HttpError 404 not_found_message)
   \<and> fetchCountryById dangling_store ''Q'' = Inl (HttpError 404 not_found_message)
   \<and> statusCode (getCountryNeighbors dangling_store ''A'') = Some 404
   \<and> getCountryNeighbors dangling_store ''A'' = getCountryNeighbors dangling_store ''Q''"
  by (simp add: getCountryNeighbors_def some_error_def fetchCountryById_def get_item_def
      fetchNeighborsByCountryId_def sort_cmp_def example_defs)

section \<open>Properties of addCountry\<close>

lemma countrySchema_iff: "countrySchema c = (\<not> missing_required_field c)"
  by (auto simp: countrySchema_def missing_required_field_def absent_def required_def
      split: option.splits)

lemma list_all_countrySchema: "list_all countrySchema cs = (\<not> list_ex missing_required_field cs)"
  by (induction cs) (simp_all add: countrySchema_iff)

lemma length_assign_ids: "length (assign_ids v4 k cs) = length cs"
  by (induction cs arbitrary: k) simp_all

lemma nth_assign_ids:
  "i < length cs \<Longrightarrow> assign_ids v4 k cs ! i = with_countryID (cs ! i) (v4 (k + i))"
proof (induction cs arbitrary: k i)
  case Nil
  then show ?case by simp
next
  case (Cons c cs)
  then show ?case by (cases i) simp_all
qed

lemma assign_ids_map:
  "assign_ids v4 0 cs = map (\<lambda>i. with_countryID (cs ! i) (v4 i)) [0..<length cs]"
  by (rule nth_equalityI) (simp_all add: length_assign_ids nth_assign_ids)

lemma assign_ids_keys: "map countryID (assign_ids v4 0 cs) = map v4 [0..<length cs]"
  by (simp add: assign_ids_map with_countryID_def)

text \<open>The items of one key, in table order: the first of them is what a lookup finds.\<close>

lemma get_item_filter:
  "get_item tbl k = (case filter (\<lambda>c. countryID c = k) tbl of [] \<Rightarrow> None | y # ys \<Rightarrow> Some y)"
  unfolding get_item_def by (induction tbl) simp_all

lemma filter_insert_other:
  assumes "\<not> P x"
  shows "filter P (take n xs @ x # drop n xs) = filter P xs"
proof -
  from assms have "filter P (take n xs @ x # drop n xs) = filter P (take n xs) @ filter P (drop n xs)"
    by simp
  also have "\<dots> = filter P (take n xs @ drop n xs)"
    by (simp only: filter_append)
  also have "take n xs @ drop n xs = xs"
    by (rule append_take_drop_id)
  finally show ?thesis .
qed

lemma filter_insert_only:
  assumes "P x" and "\<forall>y\<in>set xs. \<not> P y"
  shows "filter P (take n xs @ x # drop n xs) = [x]"
proof -
  from assms(2) have "filter P (take n xs) = []" and "filter P (drop n xs) = []"
    by (auto simp: filter_empty_conv dest: in_set_takeD in_set_dropD)
  with assms(1) show ?thesis by simp
qed

lemma mset_insert_at: "mset (take n xs @ x # drop n xs) = add_mset x (mset xs)"
proof -
  have "mset (take n xs @ x # drop n xs) = add_mset x (mset (take n xs) + mset (drop n xs))"
    by simp
  also have "mset (take n xs) + mset (drop n xs) = mset (take n xs @ drop n xs)"
    by (simp only: mset_append)
  also have "take n xs @ drop n xs = xs"
    by (rule append_take_drop_id)
  finally show ?thesis .
qed

lemma put_item_other:
  assumes "countryID x \<noteq> k"
  shows "filter (\<lambda>c. countryID c = k) (put_item place x tbl) = filter (\<lambda>c. countryID c = k) tbl"
proof (cases "countryID x \<in> countryID ` set tbl")
  case True
  have "filter (\<lambda>c. countryID c = k) (map (\<lambda>y. if countryID y = countryID x then x else y) tbl)
          = filter (\<lambda>c. countryID c = k) tbl"
    using assms by (induction tbl) auto
  with True show ?thesis by (simp add: put_item_def)
next
  case False
  from assms have "filter (\<lambda>c. countryID c = k) (take (place x tbl) tbl @ x # drop (place x tbl) tbl)
          = filter (\<lambda>c. countryID c = k) tbl"
    by (rule filter_insert_other)
  with False show ?thesis by (simp only: put_item_def if_False)
qed

lemma put_item_new:
  assumes "countryID x \<notin> countryID ` set tbl"
  shows "filter (\<lambda>c. countryID c = countryID x) (put_item place x tbl) = [x]"
proof -
  from assms have "\<forall>y\<in>set tbl. \<not> countryID y = countryID x"
    by (metis imageI)
  then have "filter (\<lambda>c. countryID c = countryID x)
      (take (place x tbl) tbl @ x # drop (place x tbl) tbl) = [x]"
    by (intro filter_insert_only) simp_all
  with assms show ?thesis by (simp only: put_item_def if_False)
qed

lemma put_item_mset:
  "countryID x \<notin> countryID ` set tbl \<Longrightarrow> mset (put_item place x tbl) = add_mset x (mset tbl)"
  by (simp only: put_item_def if_False mset_insert_at)

lemma foldl_put_item_other:
  "k \<notin> countryID ` set xs \<Longrightarrow>
   filter (\<lambda>c. countryID c = k) (foldl (\<lambda>t x. put_item place x t) tbl xs)
     = filter (\<lambda>c. countryID c = k) tbl"
proof (induction xs arbitrary: tbl)
  case Nil
  show ?case by simp
next
  case (Cons x xs)
  then have "countryID x \<noteq> k" and "k \<notin> countryID ` set xs" by auto
  with Cons.IH [of "put_item place x tbl"] show ?case by (simp add: put_item_other)
qed

lemma foldl_put_item_new:
  "distinct (map countryID xs) \<Longrightarrow> countryID ` set xs \<inter> countryID ` set tbl = {} \<Longrightarrow>
   x \<in> set xs \<Longrightarrow>
   filter (\<lambda>c. countryID c = countryID x) (foldl (\<lambda>t x. put_item place x t) tbl xs) = [x]"
proof (induction xs arbitrary: tbl)
  case Nil
  then show ?case by simp
next
  case (Cons y ys)
  from Cons.prems have y: "countryID y \<notin> countryID ` set tbl"
    and ys: "distinct (map countryID ys)" and yys: "countryID y \<notin> countryID ` set ys"
    and disj: "countryID ` set ys \<inter> countryID ` set (put_item place y tbl) = {}"
    by (auto simp: put_item_ids)
  show ?case
  proof (cases "x = y")
    case True
    with yys foldl_put_item_other [of "countryID y" ys place "put_item place y tbl"]
    show ?thesis by (simp add: put_item_new [OF y])
  next
    case False
    with Cons.prems have "x \<in> set ys" by simp
    from Cons.IH [OF ys disj this] show ?thesis by simp
  qed
qed

lemma foldl_put_item_mset:
  "distinct (map countryID xs) \<Longrightarrow> countryID ` set xs \<inter> countryID ` set tbl = {} \<Longrightarrow>
   mset (foldl (\<lambda>t x. put_item place x t) tbl xs) = mset tbl + mset xs"
proof (induction xs arbitrary: tbl)
  case Nil
  show ?case by simp
next
  case (Cons y ys)
  from Cons.prems have y: "countryID y \<notin> countryID ` set tbl"
    and ys: "distinct (map countryID ys)"
    and disj: "countryID ` set ys \<inter> countryID ` set (put_item place y tbl) = {}"
    by (auto simp: put_item_ids)
  from Cons.IH [OF ys disj] show ?case by (simp add: put_item_mset [OF y])
qed

text \<open>
  C9, as the code has it. If any record of the batch is missing a required field (name,
  capital, region or currency: not there, or empty, which the schema's \<open>required\<close>
  rejects alike), the answer is an error and the store is as before. A batch of valid
  records that is empty or has more than 25 records is rejected by the one batch write:
  the answer is an error as well, and the store is as before. Otherwise, with freshly
  drawn identifiers, the answer is 201 and carries the records under the drawn
  identifiers, not the caller's; each of them is in the table afterwards under its
  identifier, every other key of the table holds what it held, the table has the old
  items and the new ones and no more, and the neighbours table is as before.
\<close>

theorem addCountry_all_or_nothing:
  "(list_ex missing_required_field cs \<longrightarrow>
      addCountry v4 place s (Batch cs) =
        (s, \<lparr>statusCode = Some 500,
             payload = ErrorMessage ''Internal Server Error'' ValidationFailed\<rparr>))
   \<and> (\<not> list_ex missing_required_field cs \<and> (cs = [] \<or> 25 < length cs) \<longrightarrow>
      addCountry v4 place s (Batch cs) =
        (s, \<lparr>statusCode = Some 500,
             payload = ErrorMessage ''Internal Server Error'' BatchRejected\<rparr>))
   \<and> (\<not> list_ex missing_required_field cs \<and> cs \<noteq> [] \<and> length cs \<le> 25
        \<and> distinct (map v4 [0..<length cs])
        \<and> set (map v4 [0..<length cs]) \<inter> set (fetchAllCountryIds s) = {} \<longrightarrow>
      snd (addCountry v4 place s (Batch cs)) =
        \<lparr>statusCode = Some 201,
         payload = Created (map (\<lambda>i. with_countryID (cs ! i) (v4 i)) [0..<length cs])\<rparr>
      \<and> (\<forall>i<length cs. fetchCountryById (fst (addCountry v4 place s (Batch cs))) (v4 i)
             = Inr (with_countryID (cs ! i) (v4 i)))
      \<and> (\<forall>k. k \<notin> set (map v4 [0..<length cs]) \<longrightarrow>
             fetchCountryById (fst (addCountry v4 place s (Batch cs))) k = fetchCountryById s k)
      \<and> mset (CountryTable (fst (addCountry v4 place s (Batch cs))))
          = mset (CountryTable s) + mset (map (\<lambda>i. with_countryID (cs ! i) (v4 i)) [0..<length cs])
      \<and> NeighborsTable (fst (addCountry v4 place s (Batch cs))) = NeighborsTable s)
   \<and> map countryID (map (\<lambda>i. with_countryID (cs ! i) (v4 i)) [0..<length cs])
       = map v4 [0..<length cs]"
proof (intro conjI impI)
  assume "list_ex missing_required_field cs"
  then show "addCountry v4 place s (Batch cs) =
        (s, \<lparr>statusCode = Some 500,
             payload = ErrorMessage ''Internal Server Error'' ValidationFailed\<rparr>)"
    by (simp add: addCountry_def list_all_countrySchema internal_error_def)
next
  assume "\<not> list_ex missing_required_field cs \<and> (cs = [] \<or> 25 < length cs)"
  then have "list_all countrySchema cs"
    and "batchWrite place (CountryTable s) (assign_ids v4 0 cs) = Inl BatchRejected"
    by (auto simp: list_all_countrySchema batchWrite_def length_assign_ids)
  then show "addCountry v4 place s (Batch cs) =
        (s, \<lparr>statusCode = Some 500,
             payload = ErrorMessage ''Internal Server Error'' BatchRejected\<rparr>)"
    by (simp add: addCountry_def internal_error_def)
next
  show "map countryID (map (\<lambda>i. with_countryID (cs ! i) (v4 i)) [0..<length cs])
       = map v4 [0..<length cs]"
    by (simp add: with_countryID_def)
next
  assume ok: "\<not> list_ex missing_required_field cs \<and> cs \<noteq> [] \<and> length cs \<le> 25
        \<and> distinct (map v4 [0..<length cs])
        \<and> set (map v4 [0..<length cs]) \<inter> set (fetchAllCountryIds s) = {}"
  let ?stored = "assign_ids v4 0 cs"
  let ?tbl = "foldl (\<lambda>t x. put_item place x t) (CountryTable s) ?stored"
  from ok have dist: "distinct (map countryID ?stored)"
    by (simp only: assign_ids_keys)
  from ok have fresh: "countryID ` set ?stored \<inter> countryID ` set (CountryTable s) = {}"
    using assign_ids_keys [of v4 cs] by (simp add: fetchAllCountryIds_def flip: set_map)
  from ok dist have written: "batchWrite place (CountryTable s) ?stored = Inr ?tbl"
    by (cases cs) (simp_all add: batchWrite_def length_assign_ids)
  from ok written have result: "addCountry v4 place s (Batch cs) =
      (s\<lparr>CountryTable := ?tbl\<rparr>, \<lparr>statusCode = Some 201, payload = Created ?stored\<rparr>)"
    by (simp add: addCountry_def list_all_countrySchema)
  show "snd (addCountry v4 place s (Batch cs)) =
        \<lparr>statusCode = Some 201,
         payload = Created (map (\<lambda>i. with_countryID (cs ! i) (v4 i)) [0..<length cs])\<rparr>"
    by (simp add: result assign_ids_map)
  show "\<forall>i<length cs. fetchCountryById (fst (addCountry v4 place s (Batch cs))) (v4 i)
             = Inr (with_countryID (cs ! i) (v4 i))"
  proof (intro allI impI)
    fix i assume i: "i < length cs"
    let ?x = "with_countryID (cs ! i) (v4 i)"
    from i have "?x \<in> set ?stored"
      by (metis length_assign_ids nth_assign_ids nth_mem add_0)
    from foldl_put_item_new [OF dist fresh this]
    have "filter (\<lambda>c. countryID c = v4 i) ?tbl = [?x]" by (simp add: with_countryID_def)
    then show "fetchCountryById (fst (addCountry v4 place s (Batch cs))) (v4 i) = Inr ?x"
      by (simp add: result fetchCountryById_def get_item_filter)
  qed
  show "\<forall>k. k \<notin> set (map v4 [0..<length cs]) \<longrightarrow>
             fetchCountryById (fst (addCountry v4 place s (Batch cs))) k = fetchCountryById s k"
  proof (intro allI impI)
    fix k assume "k \<notin> set (map v4 [0..<length cs])"
    then have "k \<notin> countryID ` set ?stored"
      using assign_ids_keys [of v4 cs] by (simp flip: set_map)
    from foldl_put_item_other [OF this]
    show "fetchCountryById (fst (addCountry v4 place s (Batch cs))) k = fetchCountryById s k"
      by (simp add: result fetchCountryById_def get_item_filter)
  qed
  show "mset (CountryTable (fst (addCountry v4 place s (Batch cs))))
          = mset (CountryTable s) + mset (map (\<lambda>i. with_countryID (cs ! i) (v4 i)) [0..<length cs])"
    using foldl_put_item_mset [OF dist fresh] by (simp add: result assign_ids_map)
  show "NeighborsTable (fst (addCountry v4 place s (Batch cs))) = NeighborsTable s"
    by (simp add: result)
qed

lemma many_ids_distinct: "distinct (map many_ids [0..<n])"
proof -
  have "inj many_ids"
  proof (rule injI)
    fix i j assume "many_ids i = many_ids j"
    then have "length (many_ids i) = length (many_ids j)" by (rule arg_cong)
    then show "i = j" by (simp add: many_ids_def)
  qed
  then show ?thesis by (simp add: distinct_map inj_on_def)
qed

theorem addCountry_all_or_nothing_witness:
  "list_ex missing_required_field [AlphaReq, NamelessReq]
   \<and> addCountry two_ids at_end example_store (Batch [AlphaReq, NamelessReq]) =
       (example_store, \<lparr>statusCode = Some 500,
          payload = ErrorMessage ''Internal Server Error'' ValidationFailed\<rparr>)
   \<and> addCountry two_ids at_end example_store (Batch []) =
       (example_store, \<lparr>statusCode = Some 500,
          payload = ErrorMessage ''Internal Server Error'' BatchRejected\<rparr>)
   \<and> \<not> list_ex missing_required_field [AlphaReq, BetaReq]
   \<and> distinct (map two_ids [0..<2])
   \<and> snd (addCountry two_ids at_end empty_store (Batch [AlphaReq, BetaReq])) =
        \<lparr>statusCode = Some 201, payload = Created [Alpha, Beta]\<rparr>
   \<and> fetchCountryById (fst (addCountry two_ids at_end empty_store (Batch [AlphaReq, BetaReq])))
        ''A'' = Inr Alpha
   \<and> fetchCountryById (fst (addCountry two_ids at_end empty_store (Batch [AlphaReq, BetaReq])))
        ''B'' = Inr Beta
   \<and> mset (CountryTable (fst (addCountry two_ids at_end empty_store (Batch [AlphaReq, BetaReq]))))
        = mset [Alpha, Beta]
   \<and> suppliedID AlphaReq = Some ''mine'' \<and> countryID Alpha = ''A''"
proof -
  let ?cs = "[AlphaReq, BetaReq]"
  let ?s = "fst (addCountry two_ids at_end empty_store (Batch ?cs))"
  have bad: "list_ex missing_required_field [AlphaReq, NamelessReq]"
    by (simp add: missing_required_field_def absent_def NamelessReq_def)
  have good: "\<not> list_ex missing_required_field ?cs"
    by (simp add: missing_required_field_def absent_def AlphaReq_def BetaReq_def)
  have none: "\<not> list_ex missing_required_field [] \<and> ([] = ([] :: country_req list) \<or> 25 < length ([] :: country_req list))"
    by simp
  have upt: "[0..<length ?cs] = [0, Suc 0]"
    by (simp add: upt_rec)
  have size: "?cs \<noteq> [] \<and> length ?cs \<le> 25" by simp
  have fresh: "distinct (map two_ids [0..<length ?cs])
     \<and> set (map two_ids [0..<length ?cs]) \<inter> set (fetchAllCountryIds empty_store) = {}"
    by (simp add: upt two_ids_def fetchAllCountryIds_def empty_store_def)
  have stored: "map (\<lambda>i. with_countryID (?cs ! i) (two_ids i)) [0..<length ?cs] = [Alpha, Beta]"
    by (simp add: upt two_ids_def with_countryID_def AlphaReq_def BetaReq_def Alpha_def Beta_def)
  from addCountry_all_or_nothing [of "[AlphaReq, NamelessReq]" two_ids at_end example_store] bad
  have rejected: "addCountry two_ids at_end example_store (Batch [AlphaReq, NamelessReq]) =
       (example_store, \<lparr>statusCode = Some 500,
          payload = ErrorMessage ''Internal Server Error'' ValidationFailed\<rparr>)"
    by blast
  from addCountry_all_or_nothing [of "[]" two_ids at_end example_store] none
  have empty: "addCountry two_ids at_end example_store (Batch []) =
       (example_store, \<lparr>statusCode = Some 500,
          payload = ErrorMessage ''Internal Server Error'' BatchRejected\<rparr>)"
    by blast
  note fact = addCountry_all_or_nothing [of ?cs two_ids at_end empty_store]
  from fact good size fresh
  have "snd (addCountry two_ids at_end empty_store (Batch ?cs)) =
        \<lparr>statusCode = Some 201,
         payload = Created (map (\<lambda>i. with_countryID (?cs ! i) (two_ids i)) [0..<length ?cs])\<rparr>"
    by blast
  then have answer: "snd (addCountry two_ids at_end empty_store (Batch ?cs)) =
        \<lparr>statusCode = Some 201, payload = Created [Alpha, Beta]\<rparr>"
    by (simp only: stored)
  from fact good size fresh
  have each: "\<forall>i<length ?cs. fetchCountryById ?s (two_ids i) = Inr (with_countryID (?cs ! i) (two_ids i))"
    by blast
  from each have "fetchCountryById ?s (two_ids 0) = Inr (with_countryID (?cs ! 0) (two_ids 0))"
    by simp
  then have first: "fetchCountryById ?s ''A'' = Inr Alpha"
    by (simp add: two_ids_def with_countryID_def AlphaReq_def Alpha_def)
  from each have "fetchCountryById ?s (two_ids 1) = Inr (with_countryID (?cs ! 1) (two_ids 1))"
    by simp
  then have second: "fetchCountryById ?s ''B'' = Inr Beta"
    by (simp add: two_ids_def with_countryID_def BetaReq_def Beta_def)
  from fact good size fresh
  have "mset (CountryTable ?s) = mset (CountryTable empty_store)
      + mset (map (\<lambda>i. with_countryID (?cs ! i) (two_ids i)) [0..<length ?cs])"
    by blast
  then have table: "mset (CountryTable ?s) = mset [Alpha, Beta]"
    by (simp only: stored) (simp add: empty_store_def)
  have "distinct (map two_ids [0..<2])"
    using fresh by (simp add: numeral_2_eq_2)
  moreover have "suppliedID AlphaReq = Some ''mine'' \<and> countryID Alpha = ''A''"
    by (simp add: AlphaReq_def Alpha_def)
  ultimately show ?thesis
    using bad good rejected empty answer first second table by simp
qed

text \<open>
  A batch of 26 valid records, with 26 different identifiers drawn: no record is missing
  a field, and yet nothing is stored and the answer is the error of the rejected batch
  write. The empty batch is answered in the same way.
\<close>

theorem addCountry_batch_limit_counterexample:
  "\<not> list_ex missing_required_field (replicate 26 AlphaReq)
   \<and> distinct (map many_ids [0..<26])
   \<and> addCountry many_ids at_end empty_store (Batch (replicate 26 AlphaReq)) =
       (empty_store, \<lparr>statusCode = Some 500,
          payload = ErrorMessage ''Internal Server Error'' BatchRejected\<rparr>)
   \<and> addCountry many_ids at_end empty_store (Batch []) =
       (empty_store, \<lparr>statusCode = Some 500,
          payload = ErrorMessage ''Internal Server Error'' BatchRejected\<rparr>)"
proof -
  have valid: "list_all countrySchema (replicate 26 AlphaReq)"
    by (simp add: list_all_iff countrySchema_def required_def AlphaReq_def)
  then have "\<not> list_ex missing_required_field (replicate 26 AlphaReq)"
    by (simp add: list_all_countrySchema)
  moreover have "batchWrite at_end (CountryTable empty_store)
      (assign_ids many_ids 0 (replicate 26 AlphaReq)) = Inl BatchRejected"
    by (simp add: batchWrite_def length_assign_ids)
  with valid have "addCountry many_ids at_end empty_store (Batch (replicate 26 AlphaReq)) =
       (empty_store, \<lparr>statusCode = Some 500,
          payload = ErrorMessage ''Internal Server Error'' BatchRejected\<rparr>)"
    by (simp add: addCountry_def internal_error_def)
  moreover have "addCountry many_ids at_end empty_store (Batch []) =
       (empty_store, \<lparr>statusCode = Some 500,
          payload = ErrorMessage ''Internal Server Error'' BatchRejected\<rparr>)"
    by (simp add: addCountry_def batchWrite_def internal_error_def)
  ultimately show ?thesis
    using many_ids_distinct [of 26] by blast
qed

section \<open>Properties of getAllCountriesPaginated\<close>

lemmas parseInt_defs =
  parseInt_def strip_sign_def strip_prefix_def is_space_def is_digit_def digit_value_def
  digits_value_def signed_zero_def to_double_def to_double_pos_def

lemma parseInt_1: "parseInt ''1'' = Fin 1"
  by (simp add: parseInt_defs)

lemma parseInt_10: "parseInt ''10'' = Fin 10"
  by (simp add: parseInt_defs)

lemma parseInt_abc: "parseInt ''abc'' = NaN"
  by (simp add: parseInt_defs)


lemma parseInt_0: "parseInt ''0'' = Fin 0"
  by (simp add: parseInt_defs)

lemma parseInt_minus_1: "parseInt ''-1'' = Fin (- 1)"
  by (simp add: parseInt_defs)

lemma parseInt_nbsp: "parseInt [CHR 0xA0, CHR ''2''] = Fin 2"
  by (simp add: parseInt_defs)


subsection \<open>Decimal numerals\<close>













lemma field_lt_missing:
  "field_missing sortKey a \<or> field_missing sortKey b \<Longrightarrow> \<not> field_lt sortKey a b"
  by (cases sortKey) (auto simp: lt_undefined_def split: option.splits)

text \<open>
  C2, as the code has it. The comparator is a total function: for every pair it gives the
  negated direction, zero or the direction. When either record lacks the sort field, both
  comparisons with \<open>undefined\<close> are false and the comparator gives zero, in either order of
  the two records: the record without the field counts as equal to the other, not as less.
\<close>

theorem compare_items_missing_field:
  "(field_missing sortKey a \<or> field_missing sortKey b \<longrightarrow>
      compare_items sortKey sortDirection a b = 0 \<and> compare_items sortKey sortDirection b a = 0)
   \<and> (compare_items sortKey sortDirection a b = - sortDirection
        \<or> compare_items sortKey sortDirection a b = 0
        \<or> compare_items sortKey sortDirection a b = sortDirection)"
proof (intro conjI impI)
  assume missing: "field_missing sortKey a \<or> field_missing sortKey b"
  then have "\<not> field_lt sortKey a b" by (rule field_lt_missing)
  moreover from missing have "field_missing sortKey b \<or> field_missing sortKey a" by blast
  then have "\<not> field_lt sortKey b a" by (rule field_lt_missing)
  ultimately show "compare_items sortKey sortDirection a b = 0"
    and "compare_items sortKey sortDirection b a = 0"
    by (simp_all add: compare_items_def)
next
  show "compare_items sortKey sortDirection a b = - sortDirection
        \<or> compare_items sortKey sortDirection a b = 0
        \<or> compare_items sortKey sortDirection a b = sortDirection"
    by (simp add: compare_items_def)
qed

theorem compare_items_missing_field_witness:
  "field_missing SortPopulation Gamma
   \<and> compare_items SortPopulation 1 Gamma Alpha = 0
   \<and> compare_items SortPopulation 1 Alpha Gamma = 0"
proof -
  have missing: "field_missing SortPopulation Gamma" by (simp add: Gamma_def)
  with compare_items_missing_field [of SortPopulation Gamma Alpha 1]
  show ?thesis by blast
qed

text \<open>
  A record without a population against one with a population, sorted by population in
  either direction: the comparator does not give a negative number.
\<close>

theorem compare_items_missing_counterexample:
  "field_missing SortPopulation Gamma
   \<and> \<not> field_missing SortPopulation Alpha
   \<and> fst (sort_criteria ''population_low_to_high'') = SortPopulation
   \<and> \<not> compare_items SortPopulation (snd (sort_criteria ''population_low_to_high'')) Gamma Alpha < 0
   \<and> \<not> compare_items SortPopulation (snd (sort_criteria ''population_high_to_low'')) Gamma Alpha < 0"
  by (simp add: compare_items_def lt_undefined_def sort_criteria_def Gamma_def Alpha_def)

subsection \<open>The page window\<close>


lemma Array_sort_consistent:
  "consistent_on cmp xs \<Longrightarrow> Array_sort engine cmp xs = sort_cmp cmp xs"
  by (simp add: Array_sort_def)


lemma Array_sort_Nil: "Array_sort engine cmp [] = []"
  by (simp add: Array_sort_def consistent_on_def sort_cmp_def)

lemma sort_example:
  "Array_sort engine (compare_items SortName 1) [Alpha, Beta] = [Alpha, Beta]"
proof -
  have "consistent_on (compare_items SortName 1) [Alpha, Beta]"
    by (rule compare_items_consistent) (simp add: Alpha_def Beta_def)
  then have "Array_sort engine (compare_items SortName 1) [Alpha, Beta]
      = sort_cmp (compare_items SortName 1) [Alpha, Beta]"
    by (rule Array_sort_consistent)
  also have "\<dots> = [Alpha, Beta]"
    by (simp add: sort_cmp_def compare_items_def lt_undefined_def Alpha_def Beta_def)
  finally show ?thesis .
qed

lemma criteria_default: "sort_criteria (or_default None ''a_to_z'') = (SortName, 1)"
  by (simp add: sort_criteria_def or_default_def)

lemma listing_found:
  assumes "scan_countries special s (q_search q) = Inr found"
  shows "getAllCountriesPaginated special engine s q =
     \<lparr>statusCode = Some 200,
      payload = CountryList ''Country list''
        \<lparr>list_items =
           slice (Array_sort engine
                    (compare_items (fst (sort_criteria (or_default (q_sort_by q) ''a_to_z'')))
                       (snd (sort_criteria (or_default (q_sort_by q) ''a_to_z'')))) found)
             (js_mul (js_sub (parseInt (or_default (q_page q) ''1'')) (Fin 1))
                (parseInt (or_default (q_limit q) ''10'')))
             (js_add (js_mul (js_sub (parseInt (or_default (q_page q) ''1'')) (Fin 1))
                        (parseInt (or_default (q_limit q) ''10'')))
                (parseInt (or_default (q_limit q) ''10''))),
         has_next = js_lt (parseInt (or_default (q_page q) ''1''))
                      (Math_ceil (js_div
                         (Fin (of_nat (length (Array_sort engine
                            (compare_items (fst (sort_criteria (or_default (q_sort_by q) ''a_to_z'')))
                               (snd (sort_criteria (or_default (q_sort_by q) ''a_to_z'')))) found))))
                         (parseInt (or_default (q_limit q) ''10'')))),
         has_prev = js_gt (parseInt (or_default (q_page q) ''1'')) (Fin 1),
         page = parseInt (or_default (q_page q) ''1''),
         pages = Math_ceil (js_div
                   (Fin (of_nat (length (Array_sort engine
                      (compare_items (fst (sort_criteria (or_default (q_sort_by q) ''a_to_z'')))
                         (snd (sort_criteria (or_default (q_sort_by q) ''a_to_z'')))) found))))
                   (parseInt (or_default (q_limit q) ''10''))),
         per_page = parseInt (or_default (q_limit q) ''10''),
         total = length (Array_sort engine
                    (compare_items (fst (sort_criteria (or_default (q_sort_by q) ''a_to_z'')))
                       (snd (sort_criteria (or_default (q_sort_by q) ''a_to_z'')))) found)\<rparr>\<rparr>"
  unfolding getAllCountriesPaginated_def Let_def assms sum.case
  by (rule refl)

lemma scan_example: "scan_countries special example_store None = Inr [Alpha, Beta]"
  by (simp add: scan_countries_def example_store_def)



subsection \<open>A page or a limit that is not a positive number\<close>

lemma js_mul_NaN: "a = NaN \<or> b = NaN \<Longrightarrow> js_mul a b = NaN"
  by (auto simp: js_mul_def)

lemma js_sub_NaN: "js_sub NaN b = NaN"
  by (simp add: js_sub_def js_add_def)

lemma js_add_NaN: "js_add NaN b = NaN"
  by (simp add: js_add_def)

lemma js_lt_NaN: "a = NaN \<or> b = NaN \<Longrightarrow> \<not> js_lt a b"
  by (auto simp: js_lt_def)

lemma Math_ceil_div_NaN: "Math_ceil (js_div a NaN) = NaN"
  by (simp add: js_div_def)

lemma slice_index_zero:
  "ToIntegerOrInfinity a = Finite 0 \<Longrightarrow> ToIntegerOrInfinity b = Finite 0 \<Longrightarrow> slice xs a b = []"
  by (simp add: slice_def)

lemma js_mul_zero: "is_zero b \<Longrightarrow> js_mul a b = NaN \<or> is_zero (js_mul a b)"
  by (cases a) (auto simp: js_mul_def is_zero_def signed_zero_def)

lemma js_add_zero: "a = NaN \<or> is_zero a \<Longrightarrow> is_zero b \<Longrightarrow> js_add a b = NaN \<or> is_zero (js_add a b)"
  by (auto simp: js_add_def is_zero_def to_double_def)

lemma index_zero: "a = NaN \<or> is_zero a \<Longrightarrow> ToIntegerOrInfinity a = Finite 0"
  by (auto simp: is_zero_def)

lemma slice_zero_limit:
  "is_zero b \<Longrightarrow> slice xs (js_mul a b) (js_add (js_mul a b) b) = []"
  by (intro slice_index_zero index_zero js_add_zero js_mul_zero)

lemma slice_NaN_limit:
  "a = NaN \<or> b = NaN \<Longrightarrow> slice xs (js_mul (js_sub a c) b) (js_add (js_mul (js_sub a c) b) b) = []"
proof -
  assume "a = NaN \<or> b = NaN"
  then have "js_mul (js_sub a c) b = NaN"
    by (auto simp: js_sub_NaN intro: js_mul_NaN)
  then show ?thesis
    by (simp add: js_add_NaN slice_index_zero)
qed

lemma pages_zero_limit: "is_zero b \<Longrightarrow> json_number (Math_ceil (js_div (Fin n) b)) = None"
  by (auto simp: js_div_def is_zero_def signed_inf_def)

lemma listing_of_found:
  assumes "scan_countries special s (q_search q) = Inr found"
  shows "statusCode (getAllCountriesPaginated special engine s q) = Some 200"
    and "map_option list_items (listing_of (getAllCountriesPaginated special engine s q)) =
       Some (slice (Array_sort engine
                    (compare_items (fst (sort_criteria (or_default (q_sort_by q) ''a_to_z'')))
                       (snd (sort_criteria (or_default (q_sort_by q) ''a_to_z'')))) found)
             (js_mul (js_sub (parseInt (or_default (q_page q) ''1'')) (Fin 1))
                (parseInt (or_default (q_limit q) ''10'')))
             (js_add (js_mul (js_sub (parseInt (or_default (q_page q) ''1'')) (Fin 1))
                        (parseInt (or_default (q_limit q) ''10'')))
                (parseInt (or_default (q_limit q) ''10''))))"
    and "map_option page (listing_of (getAllCountriesPaginated special engine s q)) =
       Some (parseInt (or_default (q_page q) ''1''))"
    and "map_option per_page (listing_of (getAllCountriesPaginated special engine s q)) =
       Some (parseInt (or_default (q_limit q) ''10''))"
    and "map_option pages (listing_of (getAllCountriesPaginated special engine s q)) =
       Some (Math_ceil (js_div
                   (Fin (of_nat (length (Array_sort engine
                      (compare_items (fst (sort_criteria (or_default (q_sort_by q) ''a_to_z'')))
                         (snd (sort_criteria (or_default (q_sort_by q) ''a_to_z'')))) found))))
                   (parseInt (or_default (q_limit q) ''10''))))"
    and "map_option has_next (listing_of (getAllCountriesPaginated special engine s q)) =
       Some (js_lt (parseInt (or_default (q_page q) ''1''))
                      (Math_ceil (js_div
                         (Fin (of_nat (length (Array_sort engine
                            (compare_items (fst (sort_criteria (or_default (q_sort_by q) ''a_to_z'')))
                               (snd (sort_criteria (or_default (q_sort_by q) ''a_to_z'')))) found))))
                         (parseInt (or_default (q_limit q) ''10'')))))"
  unfolding listing_found [OF assms] listing_of_def by simp_all

text \<open>
  C5, as the code has it. The defaults stand in for a page or a limit that is absent, and
  for no other: a value that is present is parsed and used as it is, a number or not. The
  handler answers every request: with status 500 when the search text is rejected as a
  pattern, whatever the page and the limit are, and with status 200 otherwise. In the
  answer \<open>page\<close> and \<open>per_page\<close> are the parsed values, \<open>NaN\<close>, zero or a negative number
  among them, and not the defaults. When the page or the limit is not a number, or the
  limit is zero, the list is empty; when the page or the limit is not a number,
  \<open>has_next\<close> is false; \<open>pages\<close> is \<open>NaN\<close> when the limit is not a number, and is not a
  finite number when the limit is zero. JSON writes a number that is not finite as \<open>null\<close>.
\<close>

theorem listing_unparsable_page_or_limit:
  "(scan_countries special s (q_search q) = Inl e \<longrightarrow>
      getAllCountriesPaginated special engine s q =
        \<lparr>statusCode = Some 500, payload = ErrorData ''Internal Server Error''\<rparr>)
   \<and> (scan_countries special s (q_search q) = Inr found \<longrightarrow>
        statusCode (getAllCountriesPaginated special engine s q) = Some 200
        \<and> map_option page (listing_of (getAllCountriesPaginated special engine s q))
            = Some (parseInt (or_default (q_page q) ''1''))
        \<and> map_option per_page (listing_of (getAllCountriesPaginated special engine s q))
            = Some (parseInt (or_default (q_limit q) ''10''))
        \<and> (parseInt (or_default (q_page q) ''1'') = NaN
             \<or> parseInt (or_default (q_limit q) ''10'') = NaN
             \<or> is_zero (parseInt (or_default (q_limit q) ''10'')) \<longrightarrow>
            map_option list_items (listing_of (getAllCountriesPaginated special engine s q))
              = Some [])
        \<and> (parseInt (or_default (q_page q) ''1'') = NaN
             \<or> parseInt (or_default (q_limit q) ''10'') = NaN \<longrightarrow>
            map_option has_next (listing_of (getAllCountriesPaginated special engine s q))
              = Some False)
        \<and> (parseInt (or_default (q_limit q) ''10'') = NaN \<longrightarrow>
            map_option pages (listing_of (getAllCountriesPaginated special engine s q))
              = Some NaN)
        \<and> (is_zero (parseInt (or_default (q_limit q) ''10'')) \<longrightarrow>
            map_option json_number
              (map_option pages (listing_of (getAllCountriesPaginated special engine s q)))
              = Some None))
   \<and> (q_page q = None \<longrightarrow> parseInt (or_default (q_page q) ''1'') = Fin 1)
   \<and> (q_limit q = None \<longrightarrow> parseInt (or_default (q_limit q) ''10'') = Fin 10)
   \<and> json_number NaN = None"
proof (intro conjI impI)
  assume "scan_countries special s (q_search q) = Inl e"
  then show "getAllCountriesPaginated special engine s q =
              \<lparr>statusCode = Some 500, payload = ErrorData ''Internal Server Error''\<rparr>"
    by (simp add: getAllCountriesPaginated_def)
next
  assume "q_page q = None"
  then show "parseInt (or_default (q_page q) ''1'') = Fin 1"
    by (simp add: or_default_def parseInt_1)
next
  assume "q_limit q = None"
  then show "parseInt (or_default (q_limit q) ''10'') = Fin 10"
    by (simp add: or_default_def parseInt_10)
next
  show "json_number NaN = None" by simp
next
  assume scan: "scan_countries special s (q_search q) = Inr found"
  note found = listing_of_found [OF scan, of engine]
  let ?page = "parseInt (or_default (q_page q) ''1'')"
  let ?limit = "parseInt (or_default (q_limit q) ''10'')"
  show "statusCode (getAllCountriesPaginated special engine s q) = Some 200"
    by (rule found(1))
  show "map_option page (listing_of (getAllCountriesPaginated special engine s q)) = Some ?page"
    by (rule found(3))
  show "map_option per_page (listing_of (getAllCountriesPaginated special engine s q)) = Some ?limit"
    by (rule found(4))
  show "map_option list_items (listing_of (getAllCountriesPaginated special engine s q)) = Some []"
    if "?page = NaN \<or> ?limit = NaN \<or> is_zero ?limit"
  proof (cases "is_zero ?limit")
    case True
    then show ?thesis by (simp only: found(2) slice_zero_limit)
  next
    case False
    with that have "?page = NaN \<or> ?limit = NaN" by blast
    then show ?thesis by (simp only: found(2) slice_NaN_limit)
  qed
  show "map_option has_next (listing_of (getAllCountriesPaginated special engine s q)) = Some False"
    if nan: "?page = NaN \<or> ?limit = NaN"
  proof -
    have "?page = NaN \<or> Math_ceil (js_div (Fin (of_nat (length (Array_sort engine
            (compare_items (fst (sort_criteria (or_default (q_sort_by q) ''a_to_z'')))
               (snd (sort_criteria (or_default (q_sort_by q) ''a_to_z'')))) found)))) ?limit) = NaN"
      using nan by (auto simp: Math_ceil_div_NaN)
    then show ?thesis
      unfolding found(6) using js_lt_NaN by blast
  qed
  show "map_option pages (listing_of (getAllCountriesPaginated special engine s q)) = Some NaN"
    if "?limit = NaN"
    unfolding found(5) that by (simp only: Math_ceil_div_NaN)
  show "map_option json_number
          (map_option pages (listing_of (getAllCountriesPaginated special engine s q))) = Some None"
    if "is_zero ?limit"
    unfolding found(5) using that by (simp add: pages_zero_limit)
qed

lemma skip_default: "js_mul (js_sub (Fin 1) (Fin 1)) (Fin 10) = Fin 0"
  by (simp add: js_sub_def js_add_def js_mul_def signed_zero_def to_double_def)

lemma window_default: "slice [Alpha, Beta] (Fin 0) (js_add (Fin 0) (Fin 10)) = [Alpha, Beta]"
  by (simp add: js_add_def slice_def to_double_def to_double_pos_def)

lemma pages_default: "Math_ceil (js_div (Fin 2) (Fin 10)) = Fin 1"
proof -
  have "Math_ceil (js_div (Fin (of_nat 2)) (Fin (of_nat 10)))
      = Fin (of_int \<lceil>rat_of_nat 2 / rat_of_nat 10\<rceil>)"
    using overflow_large by (intro ceil_div_double) simp_all
  moreover have "\<lceil>(1::rat) / 5\<rceil> = 1" by (rule ceiling_unique) simp_all
  ultimately show ?thesis by simp
qed

lemma next_default: "js_lt (Fin 1) (Fin 1) = False" "js_gt (Fin 1) (Fin 1) = False"
  "js_lt NaN (Fin 1) = False" "js_gt NaN (Fin 1) = False"
  by (simp_all add: js_lt_def js_gt_def)

lemma listing_example:
  "getAllCountriesPaginated strict_RegExp insertion_engine example_store
     \<lparr>q_page = page_text, q_limit = limit_text, q_sort_by = None, q_search = None\<rparr> =
     \<lparr>statusCode = Some 200,
      payload = CountryList ''Country list''
        \<lparr>list_items =
           slice [Alpha, Beta]
             (js_mul (js_sub (parseInt (or_default page_text ''1'')) (Fin 1))
                (parseInt (or_default limit_text ''10'')))
             (js_add (js_mul (js_sub (parseInt (or_default page_text ''1'')) (Fin 1))
                        (parseInt (or_default limit_text ''10'')))
                (parseInt (or_default limit_text ''10''))),
         has_next = js_lt (parseInt (or_default page_text ''1''))
                      (Math_ceil (js_div (Fin 2) (parseInt (or_default limit_text ''10'')))),
         has_prev = js_gt (parseInt (or_default page_text ''1'')) (Fin 1),
         page = parseInt (or_default page_text ''1''),
         pages = Math_ceil (js_div (Fin 2) (parseInt (or_default limit_text ''10''))),
         per_page = parseInt (or_default limit_text ''10''),
         total = 2\<rparr>\<rparr>"
proof -
  let ?q = "\<lparr>q_page = page_text, q_limit = limit_text, q_sort_by = None, q_search = None\<rparr>"
  have scan: "scan_countries strict_RegExp example_store (q_search ?q) = Inr [Alpha, Beta]"
    by (simp add: scan_example)
  show ?thesis
    unfolding listing_found [OF scan]
    by (simp add: criteria_default sort_example)
qed

theorem listing_unparsable_page_or_limit_witness:
  "parseInt ''abc'' = NaN
   \<and> scan_countries strict_RegExp example_store None = Inr [Alpha, Beta]
   \<and> statusCode (getAllCountriesPaginated strict_RegExp insertion_engine example_store
        \<lparr>q_page = None, q_limit = Some ''abc'', q_sort_by = None, q_search = None\<rparr>) = Some 200
   \<and> map_option list_items (listing_of (getAllCountriesPaginated strict_RegExp insertion_engine
        example_store
        \<lparr>q_page = None, q_limit = Some ''abc'', q_sort_by = None, q_search = None\<rparr>)) = Some []
   \<and> map_option has_next (listing_of (getAllCountriesPaginated strict_RegExp insertion_engine
        example_store
        \<lparr>q_page = None, q_limit = Some ''abc'', q_sort_by = None, q_search = None\<rparr>)) = Some False
   \<and> map_option page (listing_of (getAllCountriesPaginated strict_RegExp insertion_engine
        example_store
        \<lparr>q_page = None, q_limit = Some ''abc'', q_sort_by = None, q_search = None\<rparr>)) = Some (Fin 1)
   \<and> map_option pages (listing_of (getAllCountriesPaginated strict_RegExp insertion_engine
        example_store
        \<lparr>q_page = None, q_limit = Some ''abc'', q_sort_by = None, q_search = None\<rparr>)) = Some NaN
   \<and> map_option per_page (listing_of (getAllCountriesPaginated strict_RegExp insertion_engine
        example_store
        \<lparr>q_page = None, q_limit = Some ''abc'', q_sort_by = None, q_search = None\<rparr>)) = Some NaN"
proof -
  let ?q = "\<lparr>q_page = None, q_limit = Some ''abc'', q_sort_by = None, q_search = None\<rparr>"
  let ?r = "getAllCountriesPaginated strict_RegExp insertion_engine example_store ?q"
  have limit: "parseInt (or_default (q_limit ?q) ''10'') = NaN"
    by (simp add: or_default_def parseInt_abc)
  have absent_page: "q_page ?q = None" by simp
  have scan: "scan_countries strict_RegExp example_store (q_search ?q) = Inr [Alpha, Beta]"
    by (simp add: scan_example)
  note fact = listing_unparsable_page_or_limit
    [of strict_RegExp example_store ?q _ insertion_engine "[Alpha, Beta]"]
  from fact scan have status: "statusCode ?r = Some 200"
    by blast
  from fact scan limit have items: "map_option list_items (listing_of ?r) = Some []"
    by blast
  from fact scan limit have nxt: "map_option has_next (listing_of ?r) = Some False"
    by blast
  from fact scan limit have pgs: "map_option pages (listing_of ?r) = Some NaN"
    by blast
  from fact scan
  have "map_option per_page (listing_of ?r) = Some (parseInt (or_default (q_limit ?q) ''10''))"
    by blast
  then have per: "map_option per_page (listing_of ?r) = Some NaN"
    by (simp only: limit)
  from fact absent_page have "parseInt (or_default (q_page ?q) ''1'') = Fin 1"
    by blast
  moreover from fact scan
  have "map_option page (listing_of ?r) = Some (parseInt (or_default (q_page ?q) ''1''))"
    by blast
  ultimately have pg: "map_option page (listing_of ?r) = Some (Fin 1)"
    by (simp only:)
  from status items nxt pg pgs per show ?thesis
    by (simp only: parseInt_abc scan_example simp_thms)
qed

text \<open>
  The page \<open>abc\<close>, the limit \<open>0\<close> and the limit \<open>-1\<close>, against the defaults written out.
  With the defaults the answer has both countries, on page 1 of 1. With the page \<open>abc\<close>
  it has no items and the page \<open>NaN\<close>. With the limit \<open>0\<close> it has no items, \<open>Infinity\<close>
  as the number of pages and a next page. With the limit \<open>-1\<close> it has every record but
  the last, on page 1 of \<open>-2\<close>.
\<close>

theorem listing_unparsable_counterexample:
  "parseInt ''abc'' = NaN \<and> parseInt ''0'' = Fin 0 \<and> parseInt ''-1'' = Fin (- 1)
   \<and> getAllCountriesPaginated strict_RegExp insertion_engine example_store
        \<lparr>q_page = Some ''abc'', q_limit = None, q_sort_by = None, q_search = None\<rparr> =
       \<lparr>statusCode = Some 200,
        payload = CountryList ''Country list''
          \<lparr>list_items = [], has_next = False, has_prev = False, page = NaN,
           pages = Fin 1, per_page = Fin 10, total = 2\<rparr>\<rparr>
   \<and> getAllCountriesPaginated strict_RegExp insertion_engine example_store
        \<lparr>q_page = None, q_limit = Some ''0'', q_sort_by = None, q_search = None\<rparr> =
       \<lparr>statusCode = Some 200,
        payload = CountryList ''Country list''
          \<lparr>list_items = [], has_next = True, has_prev = False, page = Fin 1,
           pages = PosInf, per_page = Fin 0, total = 2\<rparr>\<rparr>
   \<and> getAllCountriesPaginated strict_RegExp insertion_engine example_store
        \<lparr>q_page = None, q_limit = Some ''-1'', q_sort_by = None, q_search = None\<rparr> =
       \<lparr>statusCode = Some 200,
        payload = CountryList ''Country list''
          \<lparr>list_items = [Alpha], has_next = False, has_prev = False, page = Fin 1,
           pages = Fin (- 2), per_page = Fin (- 1), total = 2\<rparr>\<rparr>
   \<and> getAllCountriesPaginated strict_RegExp insertion_engine example_store
        \<lparr>q_page = Some ''1'', q_limit = Some ''10'', q_sort_by = None, q_search = None\<rparr> =
       \<lparr>statusCode = Some 200,
        payload = CountryList ''Country list''
          \<lparr>list_items = [Alpha, Beta], has_next = False, has_prev = False, page = Fin 1,
           pages = Fin 1, per_page = Fin 10, total = 2\<rparr>\<rparr>"
proof -
  have unparsable: "getAllCountriesPaginated strict_RegExp insertion_engine example_store
        \<lparr>q_page = Some ''abc'', q_limit = None, q_sort_by = None, q_search = None\<rparr> =
       \<lparr>statusCode = Some 200,
        payload = CountryList ''Country list''
          \<lparr>list_items = [], has_next = False, has_prev = False, page = NaN,
           pages = Fin 1, per_page = Fin 10, total = 2\<rparr>\<rparr>"
    unfolding listing_example
    by (simp add: or_default_def parseInt_abc parseInt_10 slice_NaN_limit pages_default
        next_default)
  have "js_mul (js_sub (Fin 1) (Fin 1)) (Fin 0) = Fin 0"
    by (simp add: js_sub_def js_add_def js_mul_def signed_zero_def to_double_def)
  moreover have "js_add (Fin 0) (Fin 0) = Fin 0"
    by (simp add: js_add_def to_double_def)
  moreover have "slice [Alpha, Beta] (Fin 0) (Fin 0) = []"
    by (simp add: slice_def)
  moreover have "Math_ceil (js_div (Fin 2) (Fin 0)) = PosInf"
    by (simp add: js_div_def is_zero_def signed_inf_def)
  moreover have "js_lt (Fin 1) PosInf"
    by (simp add: js_lt_def)
  ultimately have zero: "getAllCountriesPaginated strict_RegExp insertion_engine example_store
        \<lparr>q_page = None, q_limit = Some ''0'', q_sort_by = None, q_search = None\<rparr> =
       \<lparr>statusCode = Some 200,
        payload = CountryList ''Country list''
          \<lparr>list_items = [], has_next = True, has_prev = False, page = Fin 1,
           pages = PosInf, per_page = Fin 0, total = 2\<rparr>\<rparr>"
    unfolding listing_example
    by (simp add: or_default_def parseInt_1 parseInt_0 next_default)
  have "js_mul (js_sub (Fin 1) (Fin 1)) (Fin (- 1)) = NegZero"
    by (simp add: js_sub_def js_add_def js_mul_def signed_zero_def to_double_def)
  moreover have "js_add NegZero (Fin (- 1)) = Fin (- 1)"
    by (simp add: js_add_def to_double_def to_double_pos_def)
  moreover have "slice [Alpha, Beta] NegZero (Fin (- 1)) = [Alpha]"
  proof -
    have "\<lceil>- 1 :: rat\<rceil> = - 1" by (rule ceiling_unique) simp_all
    then show ?thesis by (simp add: slice_def)
  qed
  moreover have "Math_ceil (js_div (Fin 2) (Fin (- 1))) = Fin (- 2)"
    by (simp add: js_div_def is_zero_def to_double_def to_double_pos_def)
  moreover have "\<not> js_lt (Fin 1) (Fin (- 2))"
    by (simp add: js_lt_def)
  ultimately have negative: "getAllCountriesPaginated strict_RegExp insertion_engine example_store
        \<lparr>q_page = None, q_limit = Some ''-1'', q_sort_by = None, q_search = None\<rparr> =
       \<lparr>statusCode = Some 200,
        payload = CountryList ''Country list''
          \<lparr>list_items = [Alpha], has_next = False, has_prev = False, page = Fin 1,
           pages = Fin (- 2), per_page = Fin (- 1), total = 2\<rparr>\<rparr>"
    unfolding listing_example
    by (simp add: or_default_def parseInt_1 parseInt_minus_1 next_default)
  have defaults: "getAllCountriesPaginated strict_RegExp insertion_engine example_store
        \<lparr>q_page = Some ''1'', q_limit = Some ''10'', q_sort_by = None, q_search = None\<rparr> =
       \<lparr>statusCode = Some 200,
        payload = CountryList ''Country list''
          \<lparr>list_items = [Alpha, Beta], has_next = False, has_prev = False, page = Fin 1,
           pages = Fin 1, per_page = Fin 10, total = 2\<rparr>\<rparr>"
    unfolding listing_example
    by (simp add: or_default_def parseInt_1 parseInt_10 skip_default window_default
        pages_default next_default)
  show ?thesis
    unfolding unparsable zero negative defaults
    by (simp add: parseInt_abc parseInt_0 parseInt_minus_1)
qed

subsection \<open>The search filter\<close>

text \<open>
  C1 at a failing input. The table holds a country named \<open>Alpha\<close>, which contains the
  search text \<open>alpha\<close> when case is ignored; the pattern is plain, so its source is the
  text itself, and the filter's \<open>contains\<close> compares case and all: the list is empty.
\<close>

theorem search_is_case_sensitive:
  "contains_ci (name Alpha) ''alpha''
   \<and> getAllCountriesPaginated special engine example_store
        \<lparr>q_page = None, q_limit = None, q_sort_by = None, q_search = Some ''alpha''\<rparr> =
       \<lparr>statusCode = Some 200,
        payload = CountryList ''Country list''
          \<lparr>list_items = [], has_next = False, has_prev = False, page = Fin 1,
           pages = Fin 0, per_page = Fin 10, total = 0\<rparr>\<rparr>"
proof -
  let ?q = "\<lparr>q_page = None, q_limit = None, q_sort_by = None, q_search = Some ''alpha''\<rparr>"
  have source: "RegExp_source special ''alpha'' = Some ''alpha''"
    by (simp add: RegExp_source_def plain_char_def)
  have "filter (matches_filter ''alpha'') [Alpha, Beta] = []"
    by (simp add: matches_filter_def attr_contains_def Alpha_def Beta_def)
  then have scan: "scan_countries special example_store (q_search ?q) = Inr []"
    by (simp add: scan_countries_def source example_store_def)
  have ci: "contains_ci (name Alpha) ''alpha''"
    by code_simp
  have response: "getAllCountriesPaginated special engine example_store ?q =
       \<lparr>statusCode = Some 200,
        payload = CountryList ''Country list''
          \<lparr>list_items = [], has_next = False, has_prev = False, page = Fin 1,
           pages = Fin 0, per_page = Fin 10, total = 0\<rparr>\<rparr>"
    unfolding listing_found [OF scan]
    by (simp add: or_default_def parseInt_1 parseInt_10 skip_default Array_sort_Nil slice_def
        js_div_def is_zero_def signed_zero_def next_default js_lt_def)
  from ci response show ?thesis by simp
qed

end
